theory Spec2Isabelle
  imports Main "HOL-Library.Word" "HOL-Library.AList" "HOL-Library.Sublist"
begin

unbundle bit_operations_syntax

section \<open>Qt strings\<close>

text \<open>
  A \<open>QString\<close> is a sequence of \<open>QChar\<close>, and a \<open>QChar\<close> is one 16-bit UTF-16 code
  unit; lengths and positions count code units. \<open>qs\<close> writes a string literal of the
  source (all of them are ASCII) as a \<open>QString\<close>.
\<close>

type_synonym QChar = "16 word"
type_synonym QString = "QChar list"

definition qs :: "string \<Rightarrow> QString" where
  "qs s = map of_char s"

text \<open>
  What can go wrong in the source: \<open>std::array::at\<close> throws \<open>std::out_of_range\<close>;
  \<open>QString::at\<close> and \<open>std::vector::operator[]\<close> outside the bounds are an assertion
  failure or undefined; \<open>assert\<close> aborts. None of them is caught anywhere in
  \<open>Emojis.cpp\<close>, so each ends the operation that meets it.
\<close>

datatype error = OutOfRange | OutOfBounds | AssertionFailed

definition bindE :: "error + 'a \<Rightarrow> ('a \<Rightarrow> error + 'b) \<Rightarrow> error + 'b" where
  "bindE r f = (case r of Inl err \<Rightarrow> Inl err | Inr x \<Rightarrow> f x)"

text \<open>\<open>QChar::isLowSurrogate\<close>, \<open>QChar::isHighSurrogate\<close>.\<close>

definition isLowSurrogate :: "QChar \<Rightarrow> bool" where
  "isLowSurrogate c = (c AND 0xfc00 = 0xdc00)"


text \<open>
  \<open>QString::toLower\<close>, on the letters A to Z. The source lowercases hexadecimal codes
  and the tokens the short code pattern matched, which are ASCII; Qt's mapping of
  letters outside ASCII is not modelled.
\<close>

definition toLowerChar :: "QChar \<Rightarrow> QChar" where
  "toLowerChar c = (if 0x41 \<le> c \<and> c \<le> 0x5A then c + 0x20 else c)"

definition toLower :: "QString \<Rightarrow> QString" where
  "toLower s = map toLowerChar s"

text \<open>
  \<open>QString::split(sep)\<close> keeps empty parts, so it returns at least one part (the empty
  string splits into one empty part). \<open>QStringList::join(sep)\<close> is its inverse.
\<close>

fun split :: "QChar \<Rightarrow> QString \<Rightarrow> QString list" where
  "split sep [] = [[]]"
| "split sep (c # cs) =
     (if c = sep then [] # split sep cs
      else (case split sep cs of [] \<Rightarrow> [[c]] | p # ps \<Rightarrow> (c # p) # ps))"

fun join :: "QChar \<Rightarrow> QString list \<Rightarrow> QString" where
  "join sep [] = []"
| "join sep [p] = p"
| "join sep (p # q # ps) = p @ sep # join sep (q # ps)"

text \<open>\<open>QString::at(i)\<close>: the position must be inside the string.\<close>

definition at :: "QString \<Rightarrow> nat \<Rightarrow> error + QChar" where
  "at s i = (if i < length s then Inr (s ! i) else Inl OutOfBounds)"

text \<open>
  \<open>QString::mid(position, n)\<close> for a position that is not negative: \<open>n\<close> code units
  from \<open>position\<close>, fewer when the string ends first, and all of the rest when \<open>n\<close> is
  negative (the default \<open>n = -1\<close> of \<open>mid(position)\<close>).
\<close>

definition mid :: "QString \<Rightarrow> nat \<Rightarrow> int \<Rightarrow> QString" where
  "mid s position n = (if n < 0 then drop position s else take (nat n) (drop position s))"

text \<open>
  \<open>QString::replace(position, n, after)\<close>: nothing happens when \<open>position\<close> is outside
  the string; \<open>n\<close> is cut to the end of the string.
\<close>

definition replace :: "QString \<Rightarrow> int \<Rightarrow> int \<Rightarrow> QString \<Rightarrow> QString" where
  "replace s position n after =
     (if position < 0 \<or> int (length s) < position then s
      else (let n' = (if int (length s) - position < n then int (length s) - position else n)
            in take (nat position) s @ after @ drop (nat position + nat n') s))"

text \<open>
  \<open>QString::toUInt(nullptr, 16)\<close> on a string of hexadecimal digits: its value, and 0
  when the conversion fails (the empty string, another character, a value that does not
  fit 32 bits). The white space and the prefix Qt also accepts are not modelled.
\<close>

definition hexDigit :: "QChar \<Rightarrow> nat option" where
  "hexDigit c =
     (if 0x30 \<le> c \<and> c \<le> 0x39 then Some (unat c - 0x30)
      else if 0x61 \<le> c \<and> c \<le> 0x66 then Some (unat c - 0x61 + 10)
      else if 0x41 \<le> c \<and> c \<le> 0x46 then Some (unat c - 0x41 + 10)
      else None)"

fun hexValue :: "QString \<Rightarrow> nat \<Rightarrow> nat option" where
  "hexValue [] acc = Some acc"
| "hexValue (c # cs) acc =
     (case hexDigit c of None \<Rightarrow> None | Some d \<Rightarrow> hexValue cs (16 * acc + d))"

definition toUInt_hex :: "QString \<Rightarrow> 32 word" where
  "toUInt_hex s =
     (if s = [] then 0
      else (case hexValue s 0 of
              None \<Rightarrow> 0
            | Some n \<Rightarrow> if n < 2 ^ 32 then of_nat n else 0))"

text \<open>
  \<open>QString::fromUcs4(data, size)\<close>, code point by code point as the Qt documentation
  has it: a code point from \<open>0x10000\<close> on becomes a surrogate pair
  (\<open>QChar::highSurrogate\<close>, \<open>QChar::lowSurrogate\<close>), any other one code unit.
\<close>

definition requiresSurrogates :: "32 word \<Rightarrow> bool" where
  "requiresSurrogates ucs4 = (0x10000 \<le> ucs4)"

definition highSurrogate :: "32 word \<Rightarrow> QChar" where
  "highSurrogate ucs4 = ucast (drop_bit 10 ucs4 + 0xd7c0)"

definition lowSurrogate :: "32 word \<Rightarrow> QChar" where
  "lowSurrogate ucs4 = ucast (ucs4 mod 0x400 + 0xdc00)"

fun fromUcs4 :: "32 word list \<Rightarrow> QString" where
  "fromUcs4 [] = []"
| "fromUcs4 (u # us) =
     (if requiresSurrogates u then [highSurrogate u, lowSurrogate u] else [ucast u])
     @ fromUcs4 us"

text \<open>\<open>QString::operator<\<close>: code unit by code unit.\<close>

fun QString_less :: "QString \<Rightarrow> QString \<Rightarrow> bool" where
  "QString_less [] [] = False"
| "QString_less [] (d # ds) = True"
| "QString_less (c # cs) [] = False"
| "QString_less (c # cs) (d # ds) = (c < d \<or> (c = d \<and> QString_less cs ds))"

text \<open>
  \<open>std::stable_sort(first, last, cmp)\<close>: the sorted permutation in which elements that
  \<open>cmp\<close> does not order keep their order. Insertion from the right computes it:
  an element passes the elements strictly before it and stops at the first other one.
\<close>

fun stable_insert :: "('a \<Rightarrow> 'a \<Rightarrow> bool) \<Rightarrow> 'a \<Rightarrow> 'a list \<Rightarrow> 'a list" where
  "stable_insert cmp x [] = [x]"
| "stable_insert cmp x (y # ys) =
     (if cmp y x then y # stable_insert cmp x ys else x # y # ys)"

definition stable_sort :: "('a \<Rightarrow> 'a \<Rightarrow> bool) \<Rightarrow> 'a list \<Rightarrow> 'a list" where
  "stable_sort cmp xs = foldr (stable_insert cmp) xs []"

section \<open>Emoji data\<close>

text \<open>
  Modelled from the spec: \<open>Emote\<close> (messages/Emote.hpp) is not among the sources; the
  fields are the four that \<open>loadEmojiSet\<close> fills. \<open>images\<close> is the URL the image set
  is made from (its scale, the constant 0.35, is left out).
\<close>

record Emote =
  name :: QString
  images :: QString
  tooltip :: QString
  homePage :: QString

text \<open>
  Modelled from the spec: \<open>EmojiData\<close> (providers/emoji/Emojis.hpp) is not among the
  sources; the fields are the ones \<open>Emojis.cpp\<close> reads and writes. The source's field
  \<open>value\<close> (the glyph) is \<open>value'\<close> here. \<open>emote\<close> is a shared pointer, null until
  \<open>loadEmojiSet\<close> sets it.
\<close>

record EmojiData =
  value' :: QString
  emote :: "Emote option"
  shortCodes :: "QString list"
  capabilities :: "QString set"
  unifiedCode :: QString
  nonQualifiedCode :: QString

definition newEmojiData :: EmojiData where
  "newEmojiData =
     \<lparr>value' = [], emote = None, shortCodes = [], capabilities = {},
      unifiedCode = [], nonQualifiedCode = []\<rparr>"

text \<open>
  One element of the dataset's array, as \<open>parseEmoji\<close> reads it: \<open>short_names\<close> is an
  array of strings and the four flags are booleans (the source reads them without a
  check); \<open>non_qualified\<close> and \<open>unified\<close> may be absent or null. A base record may have
  \<open>skin_variations\<close>, an object whose members are records of the same shape (their
  \<open>short_names\<close> are never read).
\<close>

record RawEmoji =
  short_names :: "QString list"
  non_qualified :: "QString option"
  unified :: "QString option"
  has_img_apple :: bool
  has_img_google :: bool
  has_img_twitter :: bool
  has_img_facebook :: bool

datatype RawRecord = RawRecord RawEmoji "(QString \<times> RawEmoji) list option"

datatype Document = ParseError | Array "RawRecord list"

text \<open>
  Modelled from the spec: \<open>rj::getSafe\<close> (util/RapidjsonHelpers.hpp) is not among the
  sources. It stores the member's value when the member is there with the right type,
  and leaves the variable as it was otherwise.
\<close>

definition getSafe :: "'a option \<Rightarrow> 'a \<Rightarrow> 'a" where
  "getSafe member out = (case member of None \<Rightarrow> out | Some v \<Rightarrow> v)"

section \<open>Tone names\<close>

definition toneNames :: "QString \<rightharpoonup> QString" where
  "toneNames = map_of
     [(qs ''1F3FB'', qs ''tone1''), (qs ''1F3FC'', qs ''tone2''), (qs ''1F3FD'', qs ''tone3''),
      (qs ''1F3FE'', qs ''tone4''), (qs ''1F3FF'', qs ''tone5'')]"

text \<open>
  The loop of \<open>getToneNames\<close>: the names found, in order, and the keys that \<open>qDebug\<close>
  reports as missing.
\<close>

fun toneLoop :: "QString list \<Rightarrow> QString list \<times> QString list" where
  "toneLoop [] = ([], [])"
| "toneLoop (tonePart # rest) =
     (case toneNames tonePart of
        None \<Rightarrow> (fst (toneLoop rest), tonePart # snd (toneLoop rest))
      | Some toneName \<Rightarrow> (toneName # fst (toneLoop rest), snd (toneLoop rest)))"

text \<open>
  \<open>getToneNames\<close>: the result and the keys reported. What
  \<open>assert(!toneNameResults.isEmpty())\<close> does depends on the build: \<open>ndebug\<close> says that
  the file is compiled with \<open>NDEBUG\<close>, where \<open>assert\<close> expands to nothing and the
  function returns the join of no names, the empty string; without \<open>NDEBUG\<close> the
  assertion fails when no name was found. The loader passes the build on.
\<close>

definition getToneNames :: "bool \<Rightarrow> QString \<Rightarrow> (error + QString) \<times> QString list" where
  "getToneNames ndebug tones =
     (let toneParts = split 0x2D tones;
          toneNameResults = fst (toneLoop toneParts)
      in (if \<not> ndebug \<and> toneNameResults = [] then Inl AssertionFailed
          else Inr (join 0x2D toneNameResults),
          snd (toneLoop toneParts)))"

section \<open>Loading the dataset\<close>

text \<open>The loop that fills \<open>std::array<uint32_t, 9> unicodeBytes\<close> through \<open>at\<close>.\<close>

fun unicodeBytesLoop :: "QString list \<Rightarrow> 32 word list \<Rightarrow> error + 32 word list" where
  "unicodeBytesLoop [] unicodeBytes = Inr unicodeBytes"
| "unicodeBytesLoop (unicodeCharacter # rest) unicodeBytes =
     (if length unicodeBytes < 9
      then unicodeBytesLoop rest (unicodeBytes @ [toUInt_hex unicodeCharacter])
      else Inl OutOfRange)"

definition parseEmoji :: "EmojiData \<Rightarrow> RawEmoji \<Rightarrow> QString \<Rightarrow> error + EmojiData" where
  "parseEmoji emojiData unparsedEmoji shortCode =
     (let e1 = emojiData\<lparr>shortCodes := shortCodes emojiData @
                 (if shortCode \<noteq> [] then [shortCode] else short_names unparsedEmoji)\<rparr>;
          e2 = e1\<lparr>nonQualifiedCode := getSafe (non_qualified unparsedEmoji) (nonQualifiedCode e1),
                  unifiedCode := getSafe (unified unparsedEmoji) (unifiedCode e1)\<rparr>;
          e3 = e2\<lparr>capabilities := capabilities e2
                  \<union> (if has_img_apple unparsedEmoji then {qs ''Apple''} else {})
                  \<union> (if has_img_google unparsedEmoji then {qs ''Google''} else {})
                  \<union> (if has_img_twitter unparsedEmoji then {qs ''Twitter''} else {})
                  \<union> (if has_img_facebook unparsedEmoji then {qs ''Facebook''} else {})\<rparr>;
          unicodeCharacters =
            (if nonQualifiedCode e3 \<noteq> [] then split 0x2D (toLower (nonQualifiedCode e3))
             else split 0x2D (toLower (unifiedCode e3)))
      in if length unicodeCharacters < 1 then Inr e3
         else bindE (unicodeBytesLoop unicodeCharacters [])
                (\<lambda>unicodeBytes. Inr (e3\<lparr>value' := fromUcs4 unicodeBytes\<rparr>)))"

text \<open>
  The object of \<open>Emojis\<close>. The records are shared (\<open>std::shared_ptr<EmojiData>\<close>)
  between the three maps, so they live in a store, \<open>objects\<close>, in the order
  \<open>std::make_shared\<close> made them, and a pointer is a position in it. \<open>emojis\<close> is the
  map from the unified code, \<open>emojiShortCodeToEmoji\<close> the one from the short code,
  \<open>emojiFirstByte\<close> the one from the first code unit of the glyph (the source's
  members end in an underscore, which a field name here cannot); \<open>allShortCodes\<close>
  is the source's vector \<open>shortCodes\<close>.
\<close>

record Emojis =
  objects :: "EmojiData list"
  emojis :: "(QString \<times> nat) list"
  emojiShortCodeToEmoji :: "QString \<rightharpoonup> nat"
  emojiFirstByte :: "QChar \<rightharpoonup> nat list"
  allShortCodes :: "QString list"

definition newEmojis :: Emojis where
  "newEmojis =
     \<lparr>objects = [], emojis = [], emojiShortCodeToEmoji = Map.empty,
      emojiFirstByte = Map.empty, allShortCodes = []\<rparr>"

text \<open>\<open>for (shortCode : emojiData->shortCodes)\<close>: the map and the vector.\<close>

fun insertShortCodes :: "QString list \<Rightarrow> nat \<Rightarrow> Emojis \<Rightarrow> Emojis" where
  "insertShortCodes [] p st = st"
| "insertShortCodes (shortCode # rest) p st =
     insertShortCodes rest p
       (st\<lparr>emojiShortCodeToEmoji := (emojiShortCodeToEmoji st)(shortCode \<mapsto> p),
           allShortCodes := allShortCodes st @ [shortCode]\<rparr>)"

text \<open>\<open>emojiFirstByte[c].append(p)\<close>: \<open>operator[]\<close> makes the empty vector first.\<close>

definition appendFirstByte :: "QChar \<Rightarrow> nat \<Rightarrow> Emojis \<Rightarrow> Emojis" where
  "appendFirstByte c p st =
     st\<lparr>emojiFirstByte := (emojiFirstByte st)
          (c \<mapsto> (case emojiFirstByte st c of None \<Rightarrow> [] | Some ps \<Rightarrow> ps) @ [p])\<rparr>"

text \<open>The loop over \<open>skin_variations\<close> of one base record.\<close>

fun loadSkinVariations ::
  "bool \<Rightarrow> QString list \<Rightarrow> (QString \<times> RawEmoji) list \<Rightarrow> Emojis \<Rightarrow> error + Emojis" where
  "loadSkinVariations ndebug baseShortCodes [] st = Inr st"
| "loadSkinVariations ndebug baseShortCodes ((toneKey, variation) # rest) st =
     bindE (fst (getToneNames ndebug toneKey)) (\<lambda>toneName.
     bindE (case baseShortCodes of [] \<Rightarrow> Inl OutOfBounds | s # _ \<Rightarrow> Inr s) (\<lambda>shortCode0.
     bindE (parseEmoji newEmojiData variation (shortCode0 @ qs ''_'' @ toneName))
       (\<lambda>variationEmojiData.
     bindE (case shortCodes variationEmojiData of [] \<Rightarrow> Inl OutOfBounds | s # _ \<Rightarrow> Inr s)
       (\<lambda>variationShortCode.
     bindE (at (value' variationEmojiData) 0) (\<lambda>c.
       (let p = length (objects st);
            st1 = st\<lparr>objects := objects st @ [variationEmojiData]\<rparr>;
            st2 = st1\<lparr>emojiShortCodeToEmoji :=
                        (emojiShortCodeToEmoji st1)(variationShortCode \<mapsto> p),
                      allShortCodes := allShortCodes st1 @ [variationShortCode]\<rparr>;
            st3 = appendFirstByte c p st2;
            st4 = st3\<lparr>emojis :=
                        AList.update (unifiedCode variationEmojiData) p (emojis st3)\<rparr>
        in loadSkinVariations ndebug baseShortCodes rest st4))))))"

text \<open>The loop of \<open>loadEmojis\<close> over the array.\<close>

fun loadEmojisLoop :: "bool \<Rightarrow> RawRecord list \<Rightarrow> Emojis \<Rightarrow> error + Emojis" where
  "loadEmojisLoop ndebug [] st = Inr st"
| "loadEmojisLoop ndebug (RawRecord unparsedEmoji skin_variations # rest) st =
     bindE (parseEmoji newEmojiData unparsedEmoji []) (\<lambda>emojiData.
       (let p = length (objects st);
            st1 = st\<lparr>objects := objects st @ [emojiData]\<rparr>;
            st2 = insertShortCodes (shortCodes emojiData) p st1
        in bindE (at (value' emojiData) 0) (\<lambda>c.
             (let st3 = appendFirstByte c p st2;
                  st4 = st3\<lparr>emojis := AList.update (unifiedCode emojiData) p (emojis st3)\<rparr>
              in bindE (case skin_variations of
                          None \<Rightarrow> Inr st4
                        | Some variations \<Rightarrow>
                            loadSkinVariations ndebug (shortCodes emojiData) variations st4)
                   (\<lambda>st5. loadEmojisLoop ndebug rest st5)))))"

text \<open>\<open>loadEmojis\<close>: a document that does not parse leaves the object as it is.\<close>

definition loadEmojis :: "bool \<Rightarrow> Document \<Rightarrow> Emojis \<Rightarrow> error + Emojis" where
  "loadEmojis ndebug root st =
     (case root of ParseError \<Rightarrow> Inr st | Array rs \<Rightarrow> loadEmojisLoop ndebug rs st)"

definition sortEmojis :: "Emojis \<Rightarrow> Emojis" where
  "sortEmojis st =
     st\<lparr>emojiFirstByte := (\<lambda>c. map_option
            (stable_sort (\<lambda>lhs rhs. length (value' (objects st ! rhs))
                                    < length (value' (objects st ! lhs))))
            (emojiFirstByte st c)),
        allShortCodes := stable_sort QString_less (allShortCodes st)\<rparr>"

section \<open>The emoji set\<close>

definition emojiSets :: "QString \<rightharpoonup> QString" where
  "emojiSets = map_of
     [(qs ''Twitter'', qs ''https://pajbot.com/static/emoji-v2/img/twitter/64/''),
      (qs ''Facebook'', qs ''https://pajbot.com/static/emoji-v2/img/facebook/64/''),
      (qs ''Apple'', qs ''https://pajbot.com/static/emoji-v2/img/apple/64/''),
      (qs ''Google'', qs ''https://pajbot.com/static/emoji-v2/img/google/64/'')]"

text \<open>
  The function that \<open>loadEmojiSet\<close> applies to every record of \<open>emojis\<close>, for the
  emoji set \<open>emojiSet\<close> of the settings. \<open>shortCodes[0]\<close> of a record without short
  codes is outside the vector.
\<close>

definition setEmote :: "QString \<Rightarrow> EmojiData \<Rightarrow> error + EmojiData" where
  "setEmote emojiSet emoji =
     (let emojiSetToUse = (if emojiSet \<notin> capabilities emoji then qs ''Twitter'' else emojiSet);
          code = toLower (unifiedCode emoji);
          urlPrefix = (case emojiSets emojiSetToUse of
                         None \<Rightarrow> qs ''https://pajbot.com/static/emoji-v2/img/twitter/64/''
                       | Some found \<Rightarrow> found);
          url = urlPrefix @ code @ qs ''.png''
      in bindE (case shortCodes emoji of [] \<Rightarrow> Inl OutOfBounds | s # _ \<Rightarrow> Inr s)
           (\<lambda>shortCode0.
              Inr (emoji\<lparr>emote := Some \<lparr>name = value' emoji, images = url,
                           tooltip = qs '':'' @ shortCode0 @ qs '':<br/>Emoji'',
                           homePage = []\<rparr>\<rparr>)))"

text \<open>\<open>emojis.each(func)\<close>: the function runs on the object behind every pointer.\<close>

fun eachEmoji ::
  "(EmojiData \<Rightarrow> error + EmojiData) \<Rightarrow> nat list \<Rightarrow> EmojiData list \<Rightarrow> error + EmojiData list" where
  "eachEmoji func [] objs = Inr objs"
| "eachEmoji func (p # ps) objs =
     bindE (func (objs ! p)) (\<lambda>emoji. eachEmoji func ps (objs[p := emoji]))"

definition loadEmojiSet :: "QString \<Rightarrow> Emojis \<Rightarrow> error + Emojis" where
  "loadEmojiSet emojiSet st =
     bindE (eachEmoji (setEmote emojiSet) (map snd (emojis st)) (objects st))
       (\<lambda>objs. Inr (st\<lparr>objects := objs\<rparr>))"

text \<open>\<open>Emojis::load\<close>, for the document read from the resource and the emoji set.\<close>

definition load :: "bool \<Rightarrow> Document \<Rightarrow> QString \<Rightarrow> error + Emojis" where
  "load ndebug root emojiSet =
     bindE (loadEmojis ndebug root newEmojis) (\<lambda>st. loadEmojiSet emojiSet (sortEmojis st))"

section \<open>Scanning text for emojis\<close>

text \<open>
  An element of the vector \<open>parse\<close> returns is an emote or a piece of text
  (\<open>boost::variant<EmotePtr, QString>\<close>). The loop below yields the matched record where
  the source pushes its \<open>emote\<close>; \<open>parse\<close> takes the field.
\<close>

datatype 'e segment = EmoteSeg 'e | TextSeg QString

text \<open>The inner loop: the code units of the glyph from position 1 on against the text.\<close>

function matchLoop :: "QString \<Rightarrow> nat \<Rightarrow> QString \<Rightarrow> nat \<Rightarrow> bool" where
  "matchLoop text i v j =
     (if j < length v
      then (if text ! (i + j) \<noteq> v ! j then False else matchLoop text i v (j + 1))
      else True)"
  by pat_completeness auto
termination
  by (relation "measure (\<lambda>(text, i, v, j). length v - j)") auto

text \<open>
  The loop over \<open>possibleEmojis\<close>: the first record that fits in the rest of the text and
  matches it (\<open>matchedEmoji\<close>; \<open>matchedEmojiLength\<close> is the length of its glyph).
\<close>

fun findEmoji :: "QString \<Rightarrow> nat \<Rightarrow> EmojiData list \<Rightarrow> EmojiData option" where
  "findEmoji text i [] = None"
| "findEmoji text i (emoji # rest) =
     (let remainingCharacters = int (length text) - int i - 1;
          emojiExtraCharacters = int (length (value' emoji)) - 1
      in if remainingCharacters < emojiExtraCharacters then findEmoji text i rest
         else if matchLoop text i (value' emoji) 1 then Some emoji
         else findEmoji text i rest)"

text \<open>
  The outer loop, from position \<open>i\<close> with \<open>lastParsedEmojiEndIndex = lastEnd\<close>, and the
  text that remains after it. The result lists what the source appends to \<open>result\<close>.
\<close>

function parseLoop ::
  "(QChar \<rightharpoonup> EmojiData list) \<Rightarrow> QString \<Rightarrow> nat \<Rightarrow> nat \<Rightarrow> EmojiData segment list" where
  "parseLoop idx text i lastEnd =
     (if i < length text then
        (let character = text ! i in
         if isLowSurrogate character then parseLoop idx text (i + 1) lastEnd
         else (case idx character of
                 None \<Rightarrow> parseLoop idx text (i + 1) lastEnd
               | Some possibleEmojis \<Rightarrow>
                   (case findEmoji text i possibleEmojis of
                      None \<Rightarrow> parseLoop idx text (i + 1) lastEnd
                    | Some matchedEmoji \<Rightarrow>
                        (let matchedEmojiLength = length (value' matchedEmoji) in
                         if matchedEmojiLength = 0 then parseLoop idx text (i + 1) lastEnd
                         else (if 0 < int i - int lastEnd
                               then [TextSeg (mid text lastEnd (int i - int lastEnd))] else [])
                              @ EmoteSeg matchedEmoji
                              # parseLoop idx text (i + (matchedEmojiLength - 1) + 1)
                                  (i + matchedEmojiLength)))))
      else (if lastEnd < length text then [TextSeg (mid text lastEnd (- 1))] else []))"
  by pat_completeness auto
termination
  by (relation "measure (\<lambda>(idx, text, i, lastEnd). length text - i)") auto

text \<open>
  The same loop, with the position in the text where each element starts written beside
  it (\<open>currentParsedEmojiFirstIndex\<close> for an emote, \<open>lastParsedEmojiEndIndex\<close> for text).
\<close>

function parseLoopAt ::
  "(QChar \<rightharpoonup> EmojiData list) \<Rightarrow> QString \<Rightarrow> nat \<Rightarrow> nat \<Rightarrow> (nat \<times> EmojiData segment) list" where
  "parseLoopAt idx text i lastEnd =
     (if i < length text then
        (let character = text ! i in
         if isLowSurrogate character then parseLoopAt idx text (i + 1) lastEnd
         else (case idx character of
                 None \<Rightarrow> parseLoopAt idx text (i + 1) lastEnd
               | Some possibleEmojis \<Rightarrow>
                   (case findEmoji text i possibleEmojis of
                      None \<Rightarrow> parseLoopAt idx text (i + 1) lastEnd
                    | Some matchedEmoji \<Rightarrow>
                        (let matchedEmojiLength = length (value' matchedEmoji) in
                         if matchedEmojiLength = 0 then parseLoopAt idx text (i + 1) lastEnd
                         else (if 0 < int i - int lastEnd
                               then [(lastEnd, TextSeg (mid text lastEnd (int i - int lastEnd)))] else [])
                              @ (i, EmoteSeg matchedEmoji)
                              # parseLoopAt idx text (i + (matchedEmojiLength - 1) + 1)
                                  (i + matchedEmojiLength)))))
      else (if lastEnd < length text then [(lastEnd, TextSeg (mid text lastEnd (- 1)))] else []))"
  by pat_completeness auto
termination
  by (relation "measure (\<lambda>(idx, text, i, lastEnd). length text - i)") auto

text \<open>The candidates behind the pointers of \<open>emojiFirstByte\<close>.\<close>

definition possibleEmojisOf :: "Emojis \<Rightarrow> QChar \<rightharpoonup> EmojiData list" where
  "possibleEmojisOf st character =
     map_option (map (\<lambda>p. objects st ! p)) (emojiFirstByte st character)"

definition parseRecords :: "Emojis \<Rightarrow> QString \<Rightarrow> EmojiData segment list" where
  "parseRecords st text = parseLoop (possibleEmojisOf st) text 0 0"

definition parseRecordsAt :: "Emojis \<Rightarrow> QString \<Rightarrow> (nat \<times> EmojiData segment) list" where
  "parseRecordsAt st text = parseLoopAt (possibleEmojisOf st) text 0 0"

definition parse :: "Emojis \<Rightarrow> QString \<Rightarrow> Emote option segment list" where
  "parse st text = map (map_segment emote) (parseRecords st text)"

text \<open>The text of a segment: the glyph of the matched record, or the piece of text.\<close>

fun segmentText :: "EmojiData segment \<Rightarrow> QString" where
  "segmentText (EmoteSeg emoji) = value' emoji"
| "segmentText (TextSeg s) = s"

section \<open>Replacing short codes\<close>

text \<open>
  Modelled from the spec: the pattern \<open>findShortCodesRegex_\<close> is declared in
  providers/emoji/Emojis.hpp, which is not among the sources. By the spec a token is a
  colon, one or more of letters, digits, underscore, plus and minus, and a colon;
  matches do not overlap and are found left to right. \<open>tokenChar\<close> is the character
  class on ASCII, \<open>matchAt\<close> the length of the match that starts at a position, and
  \<open>globalMatch\<close> the matches from a position on, each with \<open>capturedStart\<close> and
  \<open>captured\<close>.
\<close>

definition tokenChar :: "QChar \<Rightarrow> bool" where
  "tokenChar c =
     ((0x61 \<le> c \<and> c \<le> 0x7A) \<or> (0x41 \<le> c \<and> c \<le> 0x5A) \<or> (0x30 \<le> c \<and> c \<le> 0x39)
      \<or> c = 0x5F \<or> c = 0x2B \<or> c = 0x2D)"

definition matchAt :: "QString \<Rightarrow> nat \<Rightarrow> nat option" where
  "matchAt text pos =
     (if pos < length text \<and> text ! pos = 0x3A then
        (let run = takeWhile tokenChar (drop (pos + 1) text) in
         if run \<noteq> [] \<and> pos + 1 + length run < length text
              \<and> text ! (pos + 1 + length run) = 0x3A
         then Some (length run + 2) else None)
      else None)"

function globalMatch :: "QString \<Rightarrow> nat \<Rightarrow> (nat \<times> QString) list" where
  "globalMatch text pos =
     (if pos < length text then
        (case matchAt text pos of
           None \<Rightarrow> globalMatch text (pos + 1)
         | Some n \<Rightarrow> (pos, take n (drop pos text)) # globalMatch text (pos + n))
      else [])"
  by pat_completeness auto
termination
  by (relation "measure (\<lambda>(text, pos). length text - pos)")
     (auto simp: matchAt_def Let_def split: if_splits)

text \<open>The record behind the pointer that \<open>emojiShortCodeToEmoji\<close> has for a short code.\<close>

definition shortCodeToEmoji :: "Emojis \<Rightarrow> QString \<rightharpoonup> EmojiData" where
  "shortCodeToEmoji st shortCode =
     map_option (\<lambda>p. objects st ! p) (emojiShortCodeToEmoji st shortCode)"

text \<open>The loop of \<open>replaceShortCodes\<close> over the matches, with \<open>offset\<close> and \<open>ret\<close>.\<close>

fun replaceLoop ::
  "(QString \<rightharpoonup> EmojiData) \<Rightarrow> (nat \<times> QString) list \<Rightarrow> int \<Rightarrow> QString \<Rightarrow> QString" where
  "replaceLoop lookup [] offset ret = ret"
| "replaceLoop lookup ((capturedStart, capturedString) # it) offset ret =
     (let matchString = mid (toLower capturedString) 1 (int (length capturedString) - 2) in
      case lookup matchString of
        None \<Rightarrow> replaceLoop lookup it offset ret
      | Some emojiData \<Rightarrow>
          replaceLoop lookup it
            (offset + (int (length (value' emojiData)) - int (length capturedString)))
            (replace ret (offset + int capturedStart) (int (length capturedString))
               (value' emojiData)))"

definition replaceShortCodes :: "Emojis \<Rightarrow> QString \<Rightarrow> QString" where
  "replaceShortCodes st text =
     replaceLoop (shortCodeToEmoji st) (globalMatch text 0) 0 text"


section \<open>Notions for the statements\<close>

declare matchLoop.simps [simp del] parseLoop.simps [simp del] parseLoopAt.simps [simp del]
  globalMatch.simps [simp del]

text \<open>
  The test of the loop over \<open>possibleEmojis\<close> for one record: there is room for the
  glyph, and the inner loop found no difference.
\<close>

definition candidate :: "QString \<Rightarrow> nat \<Rightarrow> EmojiData \<Rightarrow> bool" where
  "candidate t i emoji =
     (int (length (value' emoji)) - 1 \<le> int (length t) - int i - 1
      \<and> matchLoop t i (value' emoji) 1)"

text \<open>The string \<open>v\<close> stands in \<open>t\<close> at position \<open>i\<close>.\<close>

definition occursAt :: "QString \<Rightarrow> nat \<Rightarrow> QString \<Rightarrow> bool" where
  "occursAt t i v = (i + length v \<le> length t \<and> take (length v) (drop i t) = v)"

text \<open>
  What the body of the outer loop decides at position \<open>i\<close>: the record it emits there,
  if any.
\<close>

definition emojiAt :: "(QChar \<rightharpoonup> EmojiData list) \<Rightarrow> QString \<Rightarrow> nat \<Rightarrow> EmojiData option" where
  "emojiAt idx t i =
     (if i < length t \<and> \<not> isLowSurrogate (t ! i) then
        (case idx (t ! i) of
           None \<Rightarrow> None
         | Some possibleEmojis \<Rightarrow>
             (case findEmoji t i possibleEmojis of
                None \<Rightarrow> None
              | Some matchedEmoji \<Rightarrow>
                  if length (value' matchedEmoji) = 0 then None else Some matchedEmoji))
      else None)"

text \<open>
  An index is well formed when every record listed under a code unit has a glyph that
  starts with this code unit.
\<close>

definition wfIndex :: "(QChar \<rightharpoonup> EmojiData list) \<Rightarrow> bool" where
  "wfIndex idx =
     (\<forall>c es. idx c = Some es \<longrightarrow> (\<forall>e\<in>set es. value' e \<noteq> [] \<and> hd (value' e) = c))"

text \<open>
  The same for the object: every pointer of the three maps is in the store, the record
  behind it has a glyph, and \<open>emojiFirstByte\<close> lists it under the first code unit of the
  glyph.
\<close>

definition wfEmojis :: "Emojis \<Rightarrow> bool" where
  "wfEmojis st =
     ((\<forall>c ps. emojiFirstByte st c = Some ps \<longrightarrow>
         (\<forall>p\<in>set ps. p < length (objects st) \<and> value' (objects st ! p) \<noteq> []
                       \<and> hd (value' (objects st ! p)) = c))
      \<and> (\<forall>k p. emojiShortCodeToEmoji st k = Some p \<longrightarrow>
            p < length (objects st) \<and> value' (objects st ! p) \<noteq> [])
      \<and> (\<forall>p\<in>snd ` set (emojis st). p < length (objects st) \<and> value' (objects st ! p) \<noteq> []))"


text \<open>
  The spec's words for the URL of a record (section 4.3): the vendor to use is the
  preference if the record's capabilities contain it and Twitter otherwise; the URL is
  the vendor's prefix in the table, or the default prefix when the table has none,
  then the lowercase unified code, then \<open>.png\<close>.
\<close>

definition spec_vendorToUse :: "QString \<Rightarrow> EmojiData \<Rightarrow> QString" where
  "spec_vendorToUse preference r =
     (if preference \<in> capabilities r then preference else qs ''Twitter'')"

definition spec_displayUrl ::
  "(QString \<rightharpoonup> QString) \<Rightarrow> QString \<Rightarrow> QString \<Rightarrow> EmojiData \<Rightarrow> QString" where
  "spec_displayUrl prefixTable defaultPrefix preference r =
     (case prefixTable (spec_vendorToUse preference r) of
        Some p \<Rightarrow> p
      | None \<Rightarrow> defaultPrefix)
     @ toLower (unifiedCode r) @ qs ''.png''"

definition defaultUrlPrefix :: QString where
  "defaultUrlPrefix = qs ''https://pajbot.com/static/emoji-v2/img/twitter/64/''"

text \<open>The code that \<open>parseEmoji\<close> decodes: \<open>non_qualified\<close> unless it is absent or empty.\<close>

definition chosenCode :: "RawEmoji \<Rightarrow> QString" where
  "chosenCode unparsedEmoji =
     (if getSafe (non_qualified unparsedEmoji) [] \<noteq> [] then getSafe (non_qualified unparsedEmoji) []
      else getSafe (unified unparsedEmoji) [])"

text \<open>The inner text of a token: one or more characters of the class.\<close>

definition tokenName :: "QString \<Rightarrow> bool" where
  "tokenName v = (v \<noteq> [] \<and> list_all tokenChar v)"

text \<open>
  The spec's words for the substitution (section 4.5), over the matches of the original
  text from position \<open>pos\<close> on: the text between the tokens stays, a token whose
  lowercase inner text is a short code of the index becomes the glyph of its record, any
  other token stays.
\<close>

fun spec_substitute ::
  "(QString \<rightharpoonup> EmojiData) \<Rightarrow> QString \<Rightarrow> nat \<Rightarrow> (nat \<times> QString) list \<Rightarrow> QString" where
  "spec_substitute lookup t pos [] = drop pos t"
| "spec_substitute lookup t pos ((start, token) # ms) =
     take (start - pos) (drop pos t)
     @ (case lookup (toLower (take (length token - 2) (drop 1 token))) of
          Some emojiData \<Rightarrow> value' emojiData
        | None \<Rightarrow> token)
     @ spec_substitute lookup t (start + length token) ms"

text \<open>
  The matches \<open>ms\<close> lie in \<open>t\<close> in order, without overlap, from \<open>pos\<close> on, each with
  its two colons at least.
\<close>

fun matchesFrom :: "QString \<Rightarrow> nat \<Rightarrow> (nat \<times> QString) list \<Rightarrow> bool" where
  "matchesFrom t pos [] = True"
| "matchesFrom t pos ((start, token) # ms) =
     (pos \<le> start \<and> 2 \<le> length token \<and> occursAt t start token
      \<and> matchesFrom t (start + length token) ms)"






section \<open>Example data\<close>

text \<open>
  The dataset of the spec's scenario: one record, short code \<open>smile\<close>, unified code
  \<open>1F604\<close>, with images of Apple and Twitter; and the object that \<open>load\<close> builds from it
  for the emoji set \<open>Google\<close>. The glyph is the surrogate pair \<open>D83D DE04\<close>.
\<close>

definition smileRaw :: RawEmoji where
  "smileRaw =
     \<lparr>short_names = [qs ''smile''], non_qualified = None, unified = Some (qs ''1F604''),
      has_img_apple = True, has_img_google = False, has_img_twitter = True,
      has_img_facebook = False\<rparr>"

definition smileDataset :: Document where
  "smileDataset = Array [RawRecord smileRaw None]"

definition smileEmoji :: EmojiData where
  "smileEmoji =
     \<lparr>value' = [0xD83D, 0xDE04],
      emote = Some \<lparr>name = [0xD83D, 0xDE04],
                    images = qs ''https://pajbot.com/static/emoji-v2/img/twitter/64/1f604.png'',
                    tooltip = qs '':smile:<br/>Emoji'', homePage = []\<rparr>,
      shortCodes = [qs ''smile''], capabilities = {qs ''Twitter'', qs ''Apple''},
      unifiedCode = qs ''1F604'', nonQualifiedCode = []\<rparr>"

definition smileEmojis :: Emojis where
  "smileEmojis =
     \<lparr>objects = [smileEmoji], emojis = [(qs ''1F604'', 0)],
      emojiShortCodeToEmoji = [qs ''smile'' \<mapsto> 0],
      emojiFirstByte = [0xD83D \<mapsto> [0]], allShortCodes = [qs ''smile'']\<rparr>"

text \<open>
  Three records of the real dataset: woman (\<open>1F469\<close>), the family of a woman and a girl
  (\<open>1F469-200D-1F467\<close>) and the family of a man, a woman and a girl
  (\<open>1F468-200D-1F469-200D-1F467\<close>); and the object that \<open>loadEmojis\<close> builds from
  them. All three glyphs start with the code unit \<open>D83D\<close>.
\<close>

definition rawOf :: "string \<Rightarrow> string \<Rightarrow> RawEmoji" where
  "rawOf shortName code =
     \<lparr>short_names = [qs shortName], non_qualified = None, unified = Some (qs code),
      has_img_apple = True, has_img_google = True, has_img_twitter = True,
      has_img_facebook = True\<rparr>"

definition familyDataset :: Document where
  "familyDataset = Array
     [RawRecord (rawOf ''woman'' ''1F469'') None,
      RawRecord (rawOf ''family_woman_girl'' ''1F469-200D-1F467'') None,
      RawRecord (rawOf ''family_man_woman_girl'' ''1F468-200D-1F469-200D-1F467'') None]"

definition emojiOf :: "string \<Rightarrow> string \<Rightarrow> QString \<Rightarrow> EmojiData" where
  "emojiOf shortName code glyph =
     \<lparr>value' = glyph, emote = None, shortCodes = [qs shortName],
      capabilities = {qs ''Facebook'', qs ''Twitter'', qs ''Google'', qs ''Apple''},
      unifiedCode = qs code, nonQualifiedCode = []\<rparr>"

definition womanGlyph :: QString where
  "womanGlyph = [0xD83D, 0xDC69]"

definition womanGirlGlyph :: QString where
  "womanGirlGlyph = [0xD83D, 0xDC69, 0x200D, 0xD83D, 0xDC67]"

definition manWomanGirlGlyph :: QString where
  "manWomanGirlGlyph = [0xD83D, 0xDC68, 0x200D, 0xD83D, 0xDC69, 0x200D, 0xD83D, 0xDC67]"

definition familyEmojis :: Emojis where
  "familyEmojis =
     \<lparr>objects = [emojiOf ''woman'' ''1F469'' womanGlyph,
                 emojiOf ''family_woman_girl'' ''1F469-200D-1F467'' womanGirlGlyph,
                 emojiOf ''family_man_woman_girl'' ''1F468-200D-1F469-200D-1F467''
                   manWomanGirlGlyph],
      emojis = [(qs ''1F469'', 0), (qs ''1F469-200D-1F467'', 1),
                (qs ''1F468-200D-1F469-200D-1F467'', 2)],
      emojiShortCodeToEmoji = [qs ''woman'' \<mapsto> 0, qs ''family_woman_girl'' \<mapsto> 1,
                               qs ''family_man_woman_girl'' \<mapsto> 2],
      emojiFirstByte = [0xD83D \<mapsto> [0, 1, 2]],
      allShortCodes = [qs ''woman'', qs ''family_woman_girl'', qs ''family_man_woman_girl'']\<rparr>"

text \<open>
  A record whose unified code has ten code points and whose \<open>non_qualified\<close> is absent
  (the kiss of two persons with skin tones, whose unified code in the dataset has ten);
  and a record with neither code.
\<close>

definition kissRaw :: RawEmoji where
  "kissRaw =
     \<lparr>short_names = [qs ''kiss''], non_qualified = None,
      unified = Some (qs ''1F9D1-1F3FB-200D-2764-FE0F-200D-1F48B-200D-1F9D1-1F3FC''),
      has_img_apple = True, has_img_google = True, has_img_twitter = True,
      has_img_facebook = True\<rparr>"



text \<open>
  Two datasets with a capital letter in a short name, and the objects that \<open>loadEmojis\<close>
  builds from them: the grin record with the short names \<open>grin\<close> and \<open>Grinning\<close>, and a
  record with the one short name \<open>OK\<close>.
\<close>

definition grinRaw :: RawEmoji where
  "grinRaw =
     \<lparr>short_names = [qs ''grin'', qs ''Grinning''], non_qualified = None,
      unified = Some (qs ''1F601''),
      has_img_apple = False, has_img_google = False, has_img_twitter = True,
      has_img_facebook = False\<rparr>"

definition grinEmojis :: Emojis where
  "grinEmojis =
     \<lparr>objects = [\<lparr>value' = [0xD83D, 0xDE01], emote = None,
                  shortCodes = [qs ''grin'', qs ''Grinning''],
                  capabilities = {qs ''Twitter''}, unifiedCode = qs ''1F601'',
                  nonQualifiedCode = []\<rparr>],
      emojis = [(qs ''1F601'', 0)],
      emojiShortCodeToEmoji = [qs ''grin'' \<mapsto> 0, qs ''Grinning'' \<mapsto> 0],
      emojiFirstByte = [0xD83D \<mapsto> [0]], allShortCodes = [qs ''grin'', qs ''Grinning'']\<rparr>"





text \<open>
  A dataset in which two records have the same unified code, \<open>1F604\<close>, under the short
  names \<open>smile\<close> and \<open>happy\<close>; and the object that \<open>load\<close> builds from it for the
  emoji set \<open>Google\<close>.
\<close>

definition dupDataset :: Document where
  "dupDataset = Array
     [RawRecord (rawOf ''smile'' ''1F604'') None, RawRecord (rawOf ''happy'' ''1F604'') None]"

definition dupEmojis :: Emojis where
  "dupEmojis =
     \<lparr>objects =
        [emojiOf ''smile'' ''1F604'' [0xD83D, 0xDE04],
         (emojiOf ''happy'' ''1F604'' [0xD83D, 0xDE04])
           \<lparr>emote := Some \<lparr>name = [0xD83D, 0xDE04],
              images = qs ''https://pajbot.com/static/emoji-v2/img/google/64/1f604.png'',
              tooltip = qs '':happy:<br/>Emoji'', homePage = []\<rparr>\<rparr>],
      emojis = [(qs ''1F604'', 1)],
      emojiShortCodeToEmoji = [qs ''smile'' \<mapsto> 0, qs ''happy'' \<mapsto> 1],
      emojiFirstByte = [0xD83D \<mapsto> [0, 1]],
      allShortCodes = [qs ''happy'', qs ''smile'']\<rparr>"

section \<open>Strings\<close>

lemma split_not_Nil: "split sep s \<noteq> []"
  by (induction s) (auto split: list.splits)


section \<open>The scanning loops\<close>

lemma matchLoop_iff:
  "matchLoop t i v j \<longleftrightarrow> (\<forall>k. j \<le> k \<and> k < length v \<longrightarrow> t ! (i + k) = v ! k)"
proof (induction t i v j rule: matchLoop.induct)
  case (1 t i v j)
  show ?case
  proof (cases "j < length v")
    case False
    then show ?thesis by (subst matchLoop.simps) auto
  next
    case True
    show ?thesis
    proof (cases "t ! (i + j) = v ! j")
      case False
      with True show ?thesis by (subst matchLoop.simps) auto
    next
      case eq: True
      have IH: "matchLoop t i v (j + 1) \<longleftrightarrow>
                (\<forall>k. j + 1 \<le> k \<and> k < length v \<longrightarrow> t ! (i + k) = v ! k)"
        using 1[OF True] eq by simp
      have "(\<forall>k. j \<le> k \<and> k < length v \<longrightarrow> t ! (i + k) = v ! k) \<longleftrightarrow>
            (\<forall>k. j + 1 \<le> k \<and> k < length v \<longrightarrow> t ! (i + k) = v ! k)"
        using eq by (metis Suc_eq_plus1 Suc_leI le_neq_implies_less Suc_leD)
      with IH True eq show ?thesis by (subst matchLoop.simps) simp
    qed
  qed
qed

lemma findEmoji_find: "findEmoji text i es = List.find (candidate text i) es"
  by (induction es) (auto simp: candidate_def Let_def)

lemma candidate_occursAt:
  assumes "i < length text" "value' e \<noteq> []" "text ! i = hd (value' e)"
  shows "candidate text i e \<longleftrightarrow> occursAt text i (value' e)"
proof -
  let ?v = "value' e"
  have fit: "(int (length ?v) - 1 \<le> int (length text) - int i - 1) \<longleftrightarrow> i + length ?v \<le> length text"
    by auto
  show ?thesis
  proof (cases "i + length ?v \<le> length text")
    case False
    then show ?thesis using fit by (simp add: candidate_def occursAt_def)
  next
    case True
    have "matchLoop text i ?v 1 \<longleftrightarrow> take (length ?v) (drop i text) = ?v"
    proof
      assume m: "matchLoop text i ?v 1"
      show "take (length ?v) (drop i text) = ?v"
      proof (rule nth_equalityI)
        show "length (take (length ?v) (drop i text)) = length ?v" using True by simp
      next
        fix k assume "k < length (take (length ?v) (drop i text))"
        then have k: "k < length ?v" by simp
        show "take (length ?v) (drop i text) ! k = ?v ! k"
        proof (cases k)
          case 0
          then show ?thesis using assms True k by (simp add: hd_conv_nth)
        next
          case (Suc k')
          from m have "\<forall>k. 1 \<le> k \<and> k < length ?v \<longrightarrow> text ! (i + k) = ?v ! k"
            by (simp only: matchLoop_iff)
          from this[rule_format, of k] Suc k have "text ! (i + k) = ?v ! k" by simp
          then show ?thesis using True k by simp
        qed
      qed
    next
      assume eq: "take (length ?v) (drop i text) = ?v"
      show "matchLoop text i ?v 1"
        unfolding matchLoop_iff
      proof (intro allI impI)
        fix k assume k: "1 \<le> k \<and> k < length ?v"
        have "take (length ?v) (drop i text) ! k = text ! (i + k)" using k True by simp
        then show "text ! (i + k) = ?v ! k" using eq by simp
      qed
    qed
    then show ?thesis using fit True by (simp add: candidate_def occursAt_def)
  qed
qed

lemma Suc_pred_length: "v \<noteq> [] \<Longrightarrow> Suc (i + (length v - Suc 0)) = i + length v"
  by (cases v) simp_all

lemma parseLoopAt_done:
  "\<not> i < length t \<Longrightarrow>
   parseLoopAt idx t i l = (if l < length t then [(l, TextSeg (drop l t))] else [])"
  by (subst parseLoopAt.simps) (simp add: mid_def)

lemma parseLoopAt_skip:
  "i < length t \<Longrightarrow> emojiAt idx t i = None \<Longrightarrow> parseLoopAt idx t i l = parseLoopAt idx t (i + 1) l"
  by (subst parseLoopAt.simps) (auto simp: emojiAt_def Let_def split: option.splits if_splits)

lemma parseLoopAt_emit:
  "emojiAt idx t i = Some e \<Longrightarrow>
   parseLoopAt idx t i l =
     (if l < i then [(l, TextSeg (take (i - l) (drop l t)))] else [])
     @ (i, EmoteSeg e) # parseLoopAt idx t (i + length (value' e)) (i + length (value' e))"
  by (subst parseLoopAt.simps)
     (auto simp: emojiAt_def Let_def mid_def nat_diff_distrib' Suc_pred_length split: option.splits if_splits)

lemma parseLoop_done:
  "\<not> i < length t \<Longrightarrow>
   parseLoop idx t i l = (if l < length t then [TextSeg (drop l t)] else [])"
  by (subst parseLoop.simps) (simp add: mid_def)

lemma parseLoop_skip:
  "i < length t \<Longrightarrow> emojiAt idx t i = None \<Longrightarrow> parseLoop idx t i l = parseLoop idx t (i + 1) l"
  by (subst parseLoop.simps) (auto simp: emojiAt_def Let_def split: option.splits if_splits)

lemma parseLoop_emit:
  "emojiAt idx t i = Some e \<Longrightarrow>
   parseLoop idx t i l =
     (if l < i then [TextSeg (take (i - l) (drop l t))] else [])
     @ EmoteSeg e # parseLoop idx t (i + length (value' e)) (i + length (value' e))"
  by (subst parseLoop.simps)
     (auto simp: emojiAt_def Let_def mid_def nat_diff_distrib' Suc_pred_length split: option.splits if_splits)

lemma emojiAt_Some_D:
  "emojiAt idx t i = Some e \<Longrightarrow>
   i < length t \<and> \<not> isLowSurrogate (t ! i) \<and> value' e \<noteq> []
   \<and> (\<exists>es. idx (t ! i) = Some es \<and> findEmoji t i es = Some e)"
  by (auto simp: emojiAt_def split: option.splits if_splits)

lemma parse_induct [case_names finish skip emit]:
  assumes "\<And>i l. \<not> i < length t \<Longrightarrow> P i l"
    and "\<And>i l. i < length t \<Longrightarrow> emojiAt idx t i = None \<Longrightarrow> P (i + 1) l \<Longrightarrow> P i l"
    and "\<And>i l e. i < length t \<Longrightarrow> emojiAt idx t i = Some e \<Longrightarrow> value' e \<noteq> [] \<Longrightarrow>
           P (i + length (value' e)) (i + length (value' e)) \<Longrightarrow> P i l"
  shows "P i l"
proof (induction i arbitrary: l rule: measure_induct_rule[where f = "\<lambda>i. length t - i"])
  case (less i)
  show ?case
  proof (cases "i < length t")
    case False
    then show ?thesis by (rule assms(1))
  next
    case True
    show ?thesis
    proof (cases "emojiAt idx t i")
      case None
      have "P (i + 1) l" using True by (intro less) simp
      with True None show ?thesis by (rule assms(2))
    next
      case (Some e)
      then have ne: "value' e \<noteq> []" by (simp add: emojiAt_Some_D)
      from ne have "0 < length (value' e)" by simp
      with True have "length t - (i + length (value' e)) < length t - i" by arith
      then have "P (i + length (value' e)) (i + length (value' e))" by (rule less)
      with True Some ne show ?thesis by (rule assms(3))
    qed
  qed
qed


lemma emojiAt_candidate:
  "emojiAt idx t i = Some e \<Longrightarrow> \<exists>es. idx (t ! i) = Some es \<and> e \<in> set es \<and> candidate t i e"
  by (auto simp: emojiAt_def findEmoji_find find_Some_iff split: option.splits if_splits)

lemma emojiAt_occurs:
  assumes "wfIndex idx" "emojiAt idx t i = Some e"
  shows "occursAt t i (value' e)"
proof -
  from assms(2) obtain es where es: "idx (t ! i) = Some es" "e \<in> set es" "candidate t i e"
    using emojiAt_candidate by blast
  from assms(2) have i: "i < length t" by (simp add: emojiAt_Some_D)
  from assms(1) es have "value' e \<noteq> []" "hd (value' e) = t ! i"
    by (auto simp: wfIndex_def)
  with i es(3) show ?thesis by (simp add: candidate_occursAt)
qed

lemma take_mid_drop:
  assumes "l \<le> i" "i + n \<le> length t"
  shows "take (i - l) (drop l t) @ take n (drop i t) @ drop (i + n) t = drop l t"
proof -
  have "take n (drop i t) @ drop (i + n) t = drop i t"
    by (metis add.commute append_take_drop_id drop_drop)
  moreover have "drop i t = drop (i - l) (drop l t)" using assms by simp
  ultimately show ?thesis by (metis append_take_drop_id)
qed

lemma parseLoop_concat:
  "wfIndex idx \<Longrightarrow> l \<le> i \<Longrightarrow> concat (map segmentText (parseLoop idx t i l)) = drop l t"
proof (induction i l rule: parse_induct[where t = t and idx = idx])
  case (finish i l)
  then show ?case by (simp add: parseLoop_done)
next
  case (skip i l)
  then show ?case by (simp add: parseLoop_skip)
next
  case (emit i l e)
  from emit have occ: "occursAt t i (value' e)" by (simp add: emojiAt_occurs)
  have rest: "concat (map segmentText (parseLoop idx t (i + length (value' e)) (i + length (value' e))))
        = drop (i + length (value' e)) t"
    using emit by simp
  have "take (i - l) (drop l t) @ value' e @ drop (i + length (value' e)) t = drop l t"
    using take_mid_drop[of l i "length (value' e)" t] occ emit.prems by (simp add: occursAt_def)
  then show ?case using emit.hyps rest emit.prems
    by (cases "l < i") (simp_all add: parseLoop_emit)
qed


lemma parseLoopAt_emote_sound:
  "(p, EmoteSeg e) \<in> set (parseLoopAt idx t i l) \<Longrightarrow> i \<le> p \<and> emojiAt idx t p = Some e"
proof (induction i l rule: parse_induct[where t = t and idx = idx])
  case (finish i l)
  then show ?case by (simp add: parseLoopAt_done split: if_splits)
next
  case (skip i l)
  then show ?case by (auto simp: parseLoopAt_skip)
next
  case (emit i l e')
  then show ?case by (auto simp: parseLoopAt_emit split: if_splits)
qed

lemma parseLoopAt_prefix_skip:
  "i \<le> p \<Longrightarrow> p \<le> length t \<Longrightarrow> (\<forall>k. i \<le> k \<and> k < p \<longrightarrow> emojiAt idx t k = None) \<Longrightarrow>
   parseLoopAt idx t i l = parseLoopAt idx t p l"
proof (induction "p - i" arbitrary: i)
  case 0
  then show ?case by simp
next
  case (Suc n)
  then have "i < length t" "emojiAt idx t i = None" by auto
  then have "parseLoopAt idx t i l = parseLoopAt idx t (i + 1) l" by (rule parseLoopAt_skip)
  also have "\<dots> = parseLoopAt idx t p l" using Suc by (intro Suc(1)) auto
  finally show ?case .
qed

lemma parseLoop_no_emote:
  "(\<forall>e. EmoteSeg e \<notin> set (parseLoop idx t i l)) \<Longrightarrow>
   parseLoop idx t i l = (if l < length t then [TextSeg (drop l t)] else [])"
proof (induction i l rule: parse_induct[where t = t and idx = idx])
  case (finish i l)
  then show ?case by (simp add: parseLoop_done)
next
  case (skip i l)
  then show ?case by (simp add: parseLoop_skip)
next
  case (emit i l e)
  then show ?case by (auto simp: parseLoop_emit)
qed



lemma parseRecordsAt_emote:
  assumes "(p, EmoteSeg e) \<in> set (parseRecordsAt st t)"
  shows "emojiAt (possibleEmojisOf st) t p = Some e"
  using parseLoopAt_emote_sound[of p e "possibleEmojisOf st" t 0 0] assms
  by (simp add: parseRecordsAt_def)

section \<open>Surrogates\<close>










section \<open>Sorting\<close>

lemma stable_insert_set: "set (stable_insert cmp x ys) = insert x (set ys)"
  by (induction ys) auto

lemma stable_sort_set: "set (stable_sort cmp xs) = set xs"
  by (induction xs) (simp_all add: stable_sort_def stable_insert_set)

lemma stable_insert_length: "length (stable_insert cmp x ys) = Suc (length ys)"
  by (induction ys) auto

lemma stable_sort_length: "length (stable_sort cmp xs) = length xs"
  by (induction xs) (simp_all add: stable_sort_def stable_insert_length)

lemma stable_insert_sorted:
  "sorted_wrt (\<lambda>a b. k b \<le> k a) ys \<Longrightarrow>
   sorted_wrt (\<lambda>a b. k b \<le> (k a :: nat)) (stable_insert (\<lambda>a b. k b < k a) x ys)"
  by (induction ys) (auto simp: stable_insert_set)

lemma stable_sort_sorted:
  "sorted_wrt (\<lambda>a b. k b \<le> (k a :: nat)) (stable_sort (\<lambda>a b. k b < k a) xs)"
  by (induction xs) (simp_all add: stable_sort_def stable_insert_sorted)

lemma stable_insert_filter:
  "filter (\<lambda>y. k y = (n::nat)) (stable_insert (\<lambda>a b. k b < k a) x ys)
   = filter (\<lambda>y. k y = n) (x # ys)"
  by (induction ys) auto

lemma stable_sort_stable:
  "filter (\<lambda>y. k y = (n::nat)) (stable_sort (\<lambda>a b. k b < k a) xs) = filter (\<lambda>y. k y = n) xs"
  by (induction xs) (simp_all add: stable_sort_def stable_insert_filter)

lemma find_sorted_longest:
  "sorted_wrt (\<lambda>a b. k b \<le> (k a :: nat)) es \<Longrightarrow> x \<in> set es \<Longrightarrow> P x \<Longrightarrow>
   \<exists>r. List.find P es = Some r \<and> k x \<le> k r"
  by (induction es) auto

lemma objects_sortEmojis [simp]: "objects (sortEmojis st) = objects st"
  by (simp add: sortEmojis_def)

lemma possibleEmojisOf_sortEmojis:
  "possibleEmojisOf (sortEmojis st) c =
     map_option (\<lambda>ps. map (\<lambda>p. objects st ! p)
        (stable_sort (\<lambda>lhs rhs. length (value' (objects st ! rhs)) < length (value' (objects st ! lhs))) ps))
       (emojiFirstByte st c)"
  by (simp add: possibleEmojisOf_def sortEmojis_def option.map_comp comp_def)

lemma possibleEmojisOf_sortEmojis_sorted:
  assumes "possibleEmojisOf (sortEmojis st) c = Some es"
  shows "sorted_wrt (\<lambda>a b. length (value' b) \<le> length (value' a)) es"
proof -
  from assms obtain ps where ps: "emojiFirstByte st c = Some ps"
    and es: "es = map (\<lambda>p. objects st ! p)
        (stable_sort (\<lambda>lhs rhs. length (value' (objects st ! rhs)) < length (value' (objects st ! lhs))) ps)"
    by (auto simp: possibleEmojisOf_sortEmojis)
  show ?thesis unfolding es sorted_wrt_map
    by (rule stable_sort_sorted[where k = "\<lambda>p. length (value' (objects st ! p))"])
qed

lemma possibleEmojisOf_sortEmojis_set:
  "emojiFirstByte st c = Some ps \<Longrightarrow>
   \<exists>es. possibleEmojisOf (sortEmojis st) c = Some es \<and> set es = (\<lambda>p. objects st ! p) ` set ps"
  by (simp add: possibleEmojisOf_sortEmojis stable_sort_set)

lemma occursAt_candidate:
  assumes "occursAt t p (value' e)" "value' e \<noteq> []"
  shows "candidate t p e" "p < length t" "t ! p = hd (value' e)"
proof -
  from assms show p: "p < length t" by (cases "value' e") (auto simp: occursAt_def)
  from assms have "take (length (value' e)) (drop p t) ! 0 = value' e ! 0" by (simp add: occursAt_def)
  then show hd: "t ! p = hd (value' e)" using assms p by (simp add: hd_conv_nth occursAt_def)
  from p hd assms show "candidate t p e" by (simp add: candidate_occursAt)
qed

lemma emojiAt_sorted_longest:
  assumes idx: "idx (t ! p) = Some es"
    and sorted: "sorted_wrt (\<lambda>a b. length (value' b) \<le> length (value' a)) es"
    and x: "x \<in> set es" "occursAt t p (value' x)" "value' x \<noteq> []"
    and low: "\<not> isLowSurrogate (t ! p)"
  shows "\<exists>r. emojiAt idx t p = Some r \<and> findEmoji t p es = Some r
          \<and> length (value' x) \<le> length (value' r)"
proof -
  from x have c: "candidate t p x" and p: "p < length t" by (simp_all add: occursAt_candidate)
  from find_sorted_longest[where k = "\<lambda>e. length (value' e)", OF sorted x(1), of "candidate t p", OF c]
  obtain r where r: "List.find (candidate t p) es = Some r" "length (value' x) \<le> length (value' r)"
    by blast
  with x(3) have "length (value' r) \<noteq> 0" by auto
  with r p low idx show ?thesis by (simp add: emojiAt_def findEmoji_find)
qed

section \<open>The loader keeps the object well formed\<close>

lemma insertShortCodes_fields [simp]:
  "objects (insertShortCodes scs p st) = objects st"
  "emojis (insertShortCodes scs p st) = emojis st"
  "emojiFirstByte (insertShortCodes scs p st) = emojiFirstByte st"
  "allShortCodes (insertShortCodes scs p st) = allShortCodes st @ scs"
  by (induction scs arbitrary: st) simp_all

lemma appendFirstByte_fields [simp]:
  "objects (appendFirstByte c p st) = objects st"
  "emojis (appendFirstByte c p st) = emojis st"
  "emojiShortCodeToEmoji (appendFirstByte c p st) = emojiShortCodeToEmoji st"
  "allShortCodes (appendFirstByte c p st) = allShortCodes st"
  by (simp_all add: appendFirstByte_def)

lemma appendFirstByte_map:
  "emojiFirstByte (appendFirstByte c p st) =
     (emojiFirstByte st)(c \<mapsto> (case emojiFirstByte st c of None \<Rightarrow> [] | Some ps \<Rightarrow> ps) @ [p])"
  by (simp add: appendFirstByte_def)

lemma insertShortCodes_map:
  "emojiShortCodeToEmoji (insertShortCodes scs p st) k =
     (if k \<in> set scs then Some p else emojiShortCodeToEmoji st k)"
  by (induction scs arbitrary: st) auto

lemma set_AList_update: "snd ` set (AList.update k v al) \<subseteq> insert v (snd ` set al)"
  by (induction al) auto

lemma wfEmojis_new: "wfEmojis newEmojis"
  by (simp add: wfEmojis_def newEmojis_def)

lemma wfEmojis_register:
  assumes wf: "wfEmojis st" and ne: "value' e \<noteq> []"
    and st': "objects st' = objects st @ [e]"
      "emojiFirstByte st' = (emojiFirstByte st)
          (hd (value' e) \<mapsto> (case emojiFirstByte st (hd (value' e)) of None \<Rightarrow> [] | Some ps \<Rightarrow> ps)
             @ [length (objects st)])"
      "\<And>k. emojiShortCodeToEmoji st' k = (if k \<in> S then Some (length (objects st)) else emojiShortCodeToEmoji st k)"
      "snd ` set (emojis st') \<subseteq> insert (length (objects st)) (snd ` set (emojis st))"
  shows "wfEmojis st'"
proof -
  have old: "\<And>p. p < length (objects st) \<Longrightarrow> objects st' ! p = objects st ! p"
    by (simp add: st'(1) nth_append)
  have new: "objects st' ! length (objects st) = e" by (simp add: st'(1))
  have len: "length (objects st') = Suc (length (objects st))" by (simp add: st'(1))
  have a: "\<forall>c ps. emojiFirstByte st' c = Some ps \<longrightarrow>
         (\<forall>p\<in>set ps. p < length (objects st') \<and> value' (objects st' ! p) \<noteq> []
                       \<and> hd (value' (objects st' ! p)) = c)"
  proof (intro allI impI ballI)
    fix c ps p assume ps: "emojiFirstByte st' c = Some ps" and p: "p \<in> set ps"
    show "p < length (objects st') \<and> value' (objects st' ! p) \<noteq> [] \<and> hd (value' (objects st' ! p)) = c"
    proof (cases "p = length (objects st)")
      case True
      have "c = hd (value' e)"
      proof (rule ccontr)
        assume "c \<noteq> hd (value' e)"
        then have "emojiFirstByte st c = Some ps" using ps by (simp add: st'(2))
        with wf p have "p < length (objects st)" by (auto simp: wfEmojis_def)
        with True show False by simp
      qed
      with True ne new len show ?thesis by simp
    next
      case False
      have "\<exists>qs. emojiFirstByte st c = Some qs \<and> p \<in> set qs"
        using ps p False by (auto simp: st'(2) split: if_splits option.splits)
      with wf have "p < length (objects st) \<and> value' (objects st ! p) \<noteq> []
                       \<and> hd (value' (objects st ! p)) = c"
        by (auto simp: wfEmojis_def)
      then show ?thesis using old len by simp
    qed
  qed
  have b: "\<forall>k p. emojiShortCodeToEmoji st' k = Some p \<longrightarrow>
            p < length (objects st') \<and> value' (objects st' ! p) \<noteq> []"
  proof (intro allI impI)
    fix k p assume kp: "emojiShortCodeToEmoji st' k = Some p"
    show "p < length (objects st') \<and> value' (objects st' ! p) \<noteq> []"
    proof (cases "k \<in> S")
      case True
      with kp have "p = length (objects st)" by (simp add: st'(3))
      with ne new len show ?thesis by simp
    next
      case False
      with kp have "emojiShortCodeToEmoji st k = Some p" by (simp add: st'(3))
      with wf have "p < length (objects st) \<and> value' (objects st ! p) \<noteq> []"
        by (auto simp: wfEmojis_def)
      then show ?thesis using old len by simp
    qed
  qed
  have c: "\<forall>p\<in>snd ` set (emojis st'). p < length (objects st') \<and> value' (objects st' ! p) \<noteq> []"
  proof
    fix p assume "p \<in> snd ` set (emojis st')"
    with st'(4) have "p = length (objects st) \<or> p \<in> snd ` set (emojis st)" by auto
    then show "p < length (objects st') \<and> value' (objects st' ! p) \<noteq> []"
    proof
      assume "p = length (objects st)"
      with ne new len show ?thesis by simp
    next
      assume "p \<in> snd ` set (emojis st)"
      with wf have "p < length (objects st) \<and> value' (objects st ! p) \<noteq> []"
        by (auto simp: wfEmojis_def)
      then show ?thesis using old len by simp
    qed
  qed
  from a b c show ?thesis unfolding wfEmojis_def by blast
qed

lemma at_0_Inr: "at v 0 = Inr c \<Longrightarrow> v \<noteq> [] \<and> c = hd v"
  by (auto simp: at_def hd_conv_nth split: if_splits)

lemma loadSkinVariations_wf:
  "wfEmojis st \<Longrightarrow> loadSkinVariations ndebug base vars st = Inr st' \<Longrightarrow> wfEmojis st'"
proof (induction vars arbitrary: st)
  case Nil
  then show ?case by simp
next
  case (Cons kv vars)
  obtain toneKey variation where kv: "kv = (toneKey, variation)" by (cases kv)
  from Cons.prems(2) obtain toneName shortCode0 e variationShortCode c where
    e: "parseEmoji newEmojiData variation (shortCode0 @ qs ''_'' @ toneName) = Inr e"
    and c: "at (value' e) 0 = Inr c"
    and rest: "loadSkinVariations ndebug base vars
       ((appendFirstByte c (length (objects st))
          (st\<lparr>objects := objects st @ [e],
               emojiShortCodeToEmoji := (emojiShortCodeToEmoji st)(variationShortCode \<mapsto> length (objects st)),
               allShortCodes := allShortCodes st @ [variationShortCode]\<rparr>))
        \<lparr>emojis := AList.update (unifiedCode e) (length (objects st)) (emojis st)\<rparr>) = Inr st'"
    unfolding kv
    by (auto simp: bindE_def Let_def split: sum.splits list.splits)
  let ?st4 = "(appendFirstByte c (length (objects st))
          (st\<lparr>objects := objects st @ [e],
               emojiShortCodeToEmoji := (emojiShortCodeToEmoji st)(variationShortCode \<mapsto> length (objects st)),
               allShortCodes := allShortCodes st @ [variationShortCode]\<rparr>))
        \<lparr>emojis := AList.update (unifiedCode e) (length (objects st)) (emojis st)\<rparr>"
  from c have ne: "value' e \<noteq> []" and hd: "c = hd (value' e)" by (simp_all add: at_0_Inr)
  have "wfEmojis ?st4"
    by (rule wfEmojis_register[OF Cons.prems(1) ne, where S = "{variationShortCode}"])
       (simp_all add: appendFirstByte_map hd set_AList_update)
  then show ?case using rest by (rule Cons.IH)
qed

lemma loadEmojisLoop_wf:
  "wfEmojis st \<Longrightarrow> loadEmojisLoop ndebug rs st = Inr st' \<Longrightarrow> wfEmojis st'"
proof (induction rs arbitrary: st)
  case Nil
  then show ?case by simp
next
  case (Cons r rs)
  obtain unparsedEmoji skin_variations where r: "r = RawRecord unparsedEmoji skin_variations"
    by (cases r)
  define reg where "reg = (\<lambda>e c.
     (appendFirstByte c (length (objects st))
        (insertShortCodes (shortCodes e) (length (objects st)) (st\<lparr>objects := objects st @ [e]\<rparr>)))
     \<lparr>emojis := AList.update (unifiedCode e) (length (objects st))
         (emojis (appendFirstByte c (length (objects st))
            (insertShortCodes (shortCodes e) (length (objects st)) (st\<lparr>objects := objects st @ [e]\<rparr>))))\<rparr>)"
  from Cons.prems(2) obtain e c st5 where
    e: "parseEmoji newEmojiData unparsedEmoji [] = Inr e"
    and c: "at (value' e) 0 = Inr c"
    and vars: "(case skin_variations of
                  None \<Rightarrow> Inr (reg e c)
                | Some variations \<Rightarrow> loadSkinVariations ndebug (shortCodes e) variations (reg e c)) = Inr st5"
    and rest: "loadEmojisLoop ndebug rs st5 = Inr st'"
    unfolding r reg_def
    by (auto simp: bindE_def Let_def split: sum.splits)
  from c have ne: "value' e \<noteq> []" and hd: "c = hd (value' e)" by (simp_all add: at_0_Inr)
  have "wfEmojis (reg e c)"
    unfolding reg_def
    by (rule wfEmojis_register[OF Cons.prems(1) ne, where S = "set (shortCodes e)"])
       (simp_all add: appendFirstByte_map hd set_AList_update insertShortCodes_map)
  with vars have "wfEmojis st5"
    by (cases skin_variations) (auto intro: loadSkinVariations_wf)
  then show ?case using rest by (rule Cons.IH)
qed

lemma loadEmojis_wf: "loadEmojis ndebug root newEmojis = Inr st \<Longrightarrow> wfEmojis st"
  using loadEmojisLoop_wf[OF wfEmojis_new]
  by (cases root) (auto simp: loadEmojis_def wfEmojis_new)

lemma setEmote_Inr:
  "setEmote emojiSet e = Inr e' \<longleftrightarrow>
     (\<exists>sc rest. shortCodes e = sc # rest \<and>
        e' = e\<lparr>emote := Some \<lparr>name = value' e,
                  images = spec_displayUrl emojiSets defaultUrlPrefix emojiSet e,
                  tooltip = qs '':'' @ sc @ qs '':<br/>Emoji'', homePage = []\<rparr>\<rparr>)"
  by (cases "shortCodes e")
     (auto simp: setEmote_def bindE_def Let_def spec_displayUrl_def spec_vendorToUse_def
        defaultUrlPrefix_def split: option.splits)

lemma setEmote_Inl: "setEmote emojiSet e = Inl err \<longleftrightarrow> shortCodes e = [] \<and> err = OutOfBounds"
  by (cases "shortCodes e") (auto simp: setEmote_def bindE_def Let_def)

lemma setEmote_idem: "setEmote emojiSet e = Inr e' \<Longrightarrow> setEmote emojiSet e' = Inr e'"
  by (auto simp: setEmote_Inr spec_displayUrl_def spec_vendorToUse_def)

lemma setEmote_fields:
  assumes "setEmote emojiSet e = Inr e'"
  shows "value' e' = value' e" "shortCodes e' = shortCodes e" "capabilities e' = capabilities e"
    "unifiedCode e' = unifiedCode e" "nonQualifiedCode e' = nonQualifiedCode e"
  using assms by (auto simp: setEmote_Inr)

lemma eachEmoji_result:
  assumes idem: "\<And>e e'. func e = Inr e' \<Longrightarrow> func e' = Inr e'"
  shows "eachEmoji func ps objs = Inr objs' \<Longrightarrow>
     length objs' = length objs \<and>
     (\<forall>q<length objs. (q \<in> set ps \<longrightarrow> func (objs ! q) = Inr (objs' ! q))
                     \<and> (q \<notin> set ps \<longrightarrow> objs' ! q = objs ! q))"
proof (induction ps arbitrary: objs)
  case Nil
  then show ?case by simp
next
  case (Cons p ps)
  from Cons.prems obtain e1 where e1: "func (objs ! p) = Inr e1"
    and rest: "eachEmoji func ps (objs[p := e1]) = Inr objs'"
    by (auto simp: bindE_def split: sum.splits)
  from Cons.IH[OF rest] have len: "length objs' = length objs"
    and IH: "\<And>q. q < length objs \<Longrightarrow>
        (q \<in> set ps \<longrightarrow> func (objs[p := e1] ! q) = Inr (objs' ! q))
        \<and> (q \<notin> set ps \<longrightarrow> objs' ! q = objs[p := e1] ! q)"
    by simp_all
  have "\<And>q. q < length objs \<Longrightarrow>
       (q \<in> set (p # ps) \<longrightarrow> func (objs ! q) = Inr (objs' ! q))
       \<and> (q \<notin> set (p # ps) \<longrightarrow> objs' ! q = objs ! q)"
  proof -
    fix q assume q: "q < length objs"
    show "(q \<in> set (p # ps) \<longrightarrow> func (objs ! q) = Inr (objs' ! q))
       \<and> (q \<notin> set (p # ps) \<longrightarrow> objs' ! q = objs ! q)"
    proof (cases "q = p")
      case True
      have upd: "objs[p := e1] ! q = e1" using True q by simp
      show ?thesis
      proof (cases "q \<in> set ps")
        case inps: True
        with IH[OF q] upd have "func e1 = Inr (objs' ! q)" by simp
        moreover have "func e1 = Inr e1" using e1 by (rule idem)
        ultimately have "objs' ! q = e1" by simp
        with e1 True show ?thesis by simp
      next
        case False
        with IH[OF q] upd have "objs' ! q = e1" by simp
        with e1 True show ?thesis by simp
      qed
    next
      case False
      then have "objs[p := e1] ! q = objs ! q" by simp
      with IH[OF q] False show ?thesis by simp
    qed
  qed
  with len show ?case by blast
qed

lemma loadEmojiSet_result:
  assumes "loadEmojiSet emojiSet st = Inr st'"
  shows "emojis st' = emojis st" "emojiShortCodeToEmoji st' = emojiShortCodeToEmoji st"
    "emojiFirstByte st' = emojiFirstByte st" "allShortCodes st' = allShortCodes st"
    "length (objects st') = length (objects st)"
    "\<And>q. q < length (objects st) \<Longrightarrow> q \<in> snd ` set (emojis st) \<Longrightarrow>
        setEmote emojiSet (objects st ! q) = Inr (objects st' ! q)"
    "\<And>q. q < length (objects st) \<Longrightarrow> q \<notin> snd ` set (emojis st) \<Longrightarrow>
        objects st' ! q = objects st ! q"
proof -
  from assms obtain objs where objs: "eachEmoji (setEmote emojiSet) (map snd (emojis st)) (objects st) = Inr objs"
    and st': "st' = st\<lparr>objects := objs\<rparr>"
    by (auto simp: loadEmojiSet_def bindE_def split: sum.splits)
  note r = eachEmoji_result[where func = "setEmote emojiSet", OF setEmote_idem objs]
  show "emojis st' = emojis st" "emojiShortCodeToEmoji st' = emojiShortCodeToEmoji st"
    "emojiFirstByte st' = emojiFirstByte st" "allShortCodes st' = allShortCodes st"
    by (simp_all add: st')
  show "length (objects st') = length (objects st)" using r by (simp add: st')
  show "\<And>q. q < length (objects st) \<Longrightarrow> q \<in> snd ` set (emojis st) \<Longrightarrow>
        setEmote emojiSet (objects st ! q) = Inr (objects st' ! q)"
    using r by (simp add: st')
  show "\<And>q. q < length (objects st) \<Longrightarrow> q \<notin> snd ` set (emojis st) \<Longrightarrow>
        objects st' ! q = objects st ! q"
    using r by (simp add: st')
qed

lemma loadEmojiSet_value:
  assumes "loadEmojiSet emojiSet st = Inr st'" "q < length (objects st)"
  shows "value' (objects st' ! q) = value' (objects st ! q)"
  using loadEmojiSet_result(6,7)[OF assms(1), of q] assms(2)
  by (cases "q \<in> snd ` set (emojis st)") (auto simp: setEmote_fields)

lemma loadEmojiSet_wf:
  assumes wf: "wfEmojis st" and l: "loadEmojiSet emojiSet st = Inr st'"
  shows "wfEmojis st'"
proof -
  note r = loadEmojiSet_result(1-5)[OF l]
  have v: "\<And>q. q < length (objects st) \<Longrightarrow> value' (objects st' ! q) = value' (objects st ! q)"
    by (rule loadEmojiSet_value[OF l])
  have a: "\<And>c ps p. emojiFirstByte st' c = Some ps \<Longrightarrow> p \<in> set ps \<Longrightarrow>
         p < length (objects st') \<and> value' (objects st' ! p) \<noteq> [] \<and> hd (value' (objects st' ! p)) = c"
  proof -
    fix c ps p assume "emojiFirstByte st' c = Some ps" "p \<in> set ps"
    with wf have "p < length (objects st) \<and> value' (objects st ! p) \<noteq> [] \<and> hd (value' (objects st ! p)) = c"
      unfolding wfEmojis_def r by blast
    then show "p < length (objects st') \<and> value' (objects st' ! p) \<noteq> [] \<and> hd (value' (objects st' ! p)) = c"
      using v r(5) by simp
  qed
  have b: "\<And>k p. emojiShortCodeToEmoji st' k = Some p \<Longrightarrow>
            p < length (objects st') \<and> value' (objects st' ! p) \<noteq> []"
  proof -
    fix k p assume "emojiShortCodeToEmoji st' k = Some p"
    with wf have "p < length (objects st) \<and> value' (objects st ! p) \<noteq> []"
      unfolding wfEmojis_def r by blast
    then show "p < length (objects st') \<and> value' (objects st' ! p) \<noteq> []"
      using v r(5) by simp
  qed
  have c: "\<And>p. p \<in> snd ` set (emojis st') \<Longrightarrow> p < length (objects st') \<and> value' (objects st' ! p) \<noteq> []"
  proof -
    fix p assume "p \<in> snd ` set (emojis st')"
    with wf have "p < length (objects st) \<and> value' (objects st ! p) \<noteq> []"
      unfolding wfEmojis_def r by blast
    then show "p < length (objects st') \<and> value' (objects st' ! p) \<noteq> []"
      using v r(5) by simp
  qed
  from a b c show ?thesis unfolding wfEmojis_def by blast
qed

lemma sortEmojis_fields [simp]:
  "emojis (sortEmojis st) = emojis st"
  "emojiShortCodeToEmoji (sortEmojis st) = emojiShortCodeToEmoji st"
  by (simp_all add: sortEmojis_def)

lemma sortEmojis_firstByte:
  "emojiFirstByte (sortEmojis st) c = Some ps \<Longrightarrow>
   \<exists>ps0. emojiFirstByte st c = Some ps0 \<and> set ps = set ps0"
  by (auto simp: sortEmojis_def stable_sort_set)

lemma sortEmojis_wf:
  assumes wf: "wfEmojis st"
  shows "wfEmojis (sortEmojis st)"
proof -
  have a: "\<And>c ps p. emojiFirstByte (sortEmojis st) c = Some ps \<Longrightarrow> p \<in> set ps \<Longrightarrow>
         p < length (objects st) \<and> value' (objects st ! p) \<noteq> [] \<and> hd (value' (objects st ! p)) = c"
  proof -
    fix c ps p assume "emojiFirstByte (sortEmojis st) c = Some ps" "p \<in> set ps"
    then obtain ps0 where "emojiFirstByte st c = Some ps0" "p \<in> set ps0"
      using sortEmojis_firstByte by blast
    with wf show "p < length (objects st) \<and> value' (objects st ! p) \<noteq> [] \<and> hd (value' (objects st ! p)) = c"
      unfolding wfEmojis_def by blast
  qed
  from wf have b: "\<And>k p. emojiShortCodeToEmoji st k = Some p \<Longrightarrow>
            p < length (objects st) \<and> value' (objects st ! p) \<noteq> []"
    and c: "\<And>p. p \<in> snd ` set (emojis st) \<Longrightarrow> p < length (objects st) \<and> value' (objects st ! p) \<noteq> []"
    unfolding wfEmojis_def by blast+
  from a b c show ?thesis unfolding wfEmojis_def by simp
qed

lemma load_wf:
  assumes "load ndebug root emojiSet = Inr st"
  shows "wfEmojis st"
proof -
  from assms obtain st0 where st0: "loadEmojis ndebug root newEmojis = Inr st0"
    and st: "loadEmojiSet emojiSet (sortEmojis st0) = Inr st"
    by (auto simp: load_def bindE_def split: sum.splits)
  from st0 have "wfEmojis st0" by (rule loadEmojis_wf)
  then have "wfEmojis (sortEmojis st0)" by (rule sortEmojis_wf)
  then show ?thesis using st by (rule loadEmojiSet_wf)
qed

lemma wfEmojis_wfIndex:
  assumes "wfEmojis st"
  shows "wfIndex (possibleEmojisOf st)"
  unfolding wfIndex_def
proof (intro allI impI ballI)
  fix c es e assume es: "possibleEmojisOf st c = Some es" and e: "e \<in> set es"
  from es obtain ps where ps: "emojiFirstByte st c = Some ps" "es = map (\<lambda>p. objects st ! p) ps"
    by (auto simp: possibleEmojisOf_def)
  with e obtain p where "p \<in> set ps" "e = objects st ! p" by auto
  with assms ps(1) show "value' e \<noteq> [] \<and> hd (value' e) = c"
    unfolding wfEmojis_def by blast
qed

lemma unicodeBytesLoop_eq:
  "length acc \<le> 9 \<Longrightarrow> unicodeBytesLoop cs acc =
     (if length acc + length cs \<le> 9 then Inr (acc @ map toUInt_hex cs) else Inl OutOfRange)"
  by (induction cs arbitrary: acc) auto

lemma parseEmoji_chosen:
  "parseEmoji newEmojiData r sc =
     (if length (split 0x2D (toLower (chosenCode r))) \<le> 9
      then Inr \<lparr>value' = fromUcs4 (map toUInt_hex (split 0x2D (toLower (chosenCode r)))),
               emote = None,
               shortCodes = (if sc \<noteq> [] then [sc] else short_names r),
               capabilities = (if has_img_apple r then {qs ''Apple''} else {})
                  \<union> (if has_img_google r then {qs ''Google''} else {})
                  \<union> (if has_img_twitter r then {qs ''Twitter''} else {})
                  \<union> (if has_img_facebook r then {qs ''Facebook''} else {}),
               unifiedCode = getSafe (unified r) [],
               nonQualifiedCode = getSafe (non_qualified r) []\<rparr>
      else Inl OutOfRange)"
  using split_not_Nil[of "0x2D" "toLower (chosenCode r)"]
  by (cases "split 0x2D (toLower (chosenCode r))")
     (auto simp: parseEmoji_def newEmojiData_def chosenCode_def Let_def bindE_def
        unicodeBytesLoop_eq)

lemma bindE_assoc: "bindE (bindE m f) g = bindE m (\<lambda>x. bindE (f x) g)"
  by (simp add: bindE_def split: sum.splits)

lemma bindE_Inl [simp]: "bindE (Inl e) f = Inl e"
  by (simp add: bindE_def)

lemma bindE_Inr [simp]: "bindE (Inr x) f = f x"
  by (simp add: bindE_def)

lemma bindE_fails: "(\<And>x. \<exists>err. f x = Inl err) \<Longrightarrow> \<exists>err. bindE m f = Inl err"
  by (cases m) auto

lemma loadEmojisLoop_append:
  "loadEmojisLoop ndebug (xs @ ys) st = bindE (loadEmojisLoop ndebug xs st) (loadEmojisLoop ndebug ys)"
proof (induction xs arbitrary: st)
  case Nil
  then show ?case by simp
next
  case (Cons x xs)
  obtain r vars where x: "x = RawRecord r vars" by (cases x)
  show ?case
    unfolding x
    by (simp add: Cons.IH Let_def bindE_def split: sum.splits)
qed










section \<open>Matches and replacements\<close>

lemma tokenChar_colon [simp]: "\<not> tokenChar 0x3A"
  by (simp add: tokenChar_def)

lemma toLowerChar_colon [simp]: "toLowerChar 0x3A = 0x3A"
  by (simp add: toLowerChar_def)

lemma tokenChar_toLowerChar [simp]: "tokenChar (toLowerChar c) = tokenChar c"
proof (cases "0x41 \<le> c \<and> c \<le> 0x5A")
  case False
  then have "toLowerChar c = c" by (auto simp: toLowerChar_def)
  then show ?thesis by simp
next
  case True
  then have u: "65 \<le> unat c" "unat c \<le> 90" by (simp_all add: word_le_nat_alt)
  then have "unat (c + 0x20) = unat c + 32" by (simp add: unat_word_ariths)
  with u have "0x61 \<le> c + 0x20 \<and> c + 0x20 \<le> 0x7A" by (simp add: word_le_nat_alt)
  moreover from True have "toLowerChar c = c + 0x20" by (simp add: toLowerChar_def)
  ultimately show ?thesis using True by (simp add: tokenChar_def)
qed

lemma tokenName_toLower [simp]: "tokenName (toLower v) = tokenName v"
  by (simp add: tokenName_def toLower_def list_all_iff)

lemma length_toLower [simp]: "length (toLower v) = length v"
  by (simp add: toLower_def)

lemma takeWhile_token:
  "tokenName v \<Longrightarrow> takeWhile tokenChar (v @ 0x3A # rest) = v"
  by (simp add: tokenName_def list_all_iff takeWhile_append2)

lemma matchAt_token:
  assumes "tokenName v"
  shows "matchAt (pre @ 0x3A # v @ 0x3A # rest) (length pre) = Some (length v + 2)"
proof -
  let ?t = "pre @ 0x3A # v @ 0x3A # rest"
  have d: "drop (length pre + 1) ?t = v @ 0x3A # rest" by simp
  have r: "takeWhile tokenChar (v @ 0x3A # rest) = v" using assms by (rule takeWhile_token)
  have n: "?t ! (length pre + 1 + length v) = 0x3A"
    by (simp add: nth_append)
  have v: "v \<noteq> []" using assms by (simp add: tokenName_def)
  show ?thesis
    unfolding matchAt_def d r Let_def using n v by (simp add: nth_append)
qed

lemma matchAt_Some:
  assumes "matchAt t pos = Some n"
  shows "\<exists>v. tokenName v \<and> take n (drop pos t) = 0x3A # v @ [0x3A] \<and> n = length v + 2
           \<and> pos + n \<le> length t"
proof -
  let ?rest = "drop (pos + 1) t"
  let ?run = "takeWhile tokenChar ?rest"
  from assms have p: "pos < length t" "t ! pos = 0x3A" "?run \<noteq> []"
    "pos + 1 + length ?run < length t" "t ! (pos + 1 + length ?run) = 0x3A"
    "n = length ?run + 2"
    by (auto simp: matchAt_def Let_def split: if_splits)
  have tn: "tokenName ?run"
    using p(3) by (auto simp: tokenName_def list_all_iff dest: set_takeWhileD)
  have k: "length ?run < length ?rest" using p(4) by simp
  have "take (Suc (length ?run)) ?rest = take (length ?run) ?rest @ [?rest ! length ?run]"
    using k by (rule take_Suc_conv_app_nth)
  moreover have "take (length ?run) ?rest = ?run" by (simp add: takeWhile_eq_take[symmetric])
  moreover have "?rest ! length ?run = 0x3A" using p(4,5) by (simp add: add.commute add.left_commute)
  ultimately have a: "take (Suc (length ?run)) ?rest = ?run @ [0x3A]" by simp
  have "drop pos t = t ! pos # ?rest" using p(1) by (simp add: Cons_nth_drop_Suc)
  then have "take n (drop pos t) = 0x3A # take (Suc (length ?run)) ?rest"
    using p(2,6) by simp
  with a have "take n (drop pos t) = 0x3A # ?run @ [0x3A]" by simp
  with tn p(4,6) show ?thesis by (intro exI[of _ ?run]) simp
qed

lemma matchesFrom_mono: "pos' \<le> pos \<Longrightarrow> matchesFrom t pos ms \<Longrightarrow> matchesFrom t pos' ms"
  by (cases ms) auto

lemma globalMatch_matchesFrom: "matchesFrom t pos (globalMatch t pos)"
proof (induction t pos rule: globalMatch.induct)
  case (1 t pos)
  show ?case
  proof (cases "pos < length t")
    case False
    then show ?thesis by (subst globalMatch.simps) simp
  next
    case True
    show ?thesis
    proof (cases "matchAt t pos")
      case None
      with True 1(1) have "matchesFrom t (pos + 1) (globalMatch t (pos + 1))" by simp
      then have "matchesFrom t pos (globalMatch t (pos + 1))" by (rule matchesFrom_mono[rotated]) simp
      with True None show ?thesis by (subst globalMatch.simps) simp
    next
      case (Some n)
      with True 1(2) have IH: "matchesFrom t (pos + n) (globalMatch t (pos + n))" by simp
      from matchAt_Some[OF Some] have n: "2 \<le> n" "pos + n \<le> length t" by auto
      then have "occursAt t pos (take n (drop pos t))" by (simp add: occursAt_def)
      with True Some IH n show ?thesis by (subst globalMatch.simps) simp
    qed
  qed
qed

lemma globalMatch_member:
  "(s, tok) \<in> set (globalMatch t pos) \<Longrightarrow>
   \<exists>v. tokenName v \<and> tok = 0x3A # v @ [0x3A] \<and> sublist tok t"
proof (induction t pos rule: globalMatch.induct)
  case (1 t pos)
  show ?case
  proof (cases "pos < length t")
    case False
    with 1(3) show ?thesis by (subst (asm) globalMatch.simps) simp
  next
    case True
    show ?thesis
    proof (cases "matchAt t pos")
      case None
      with True 1(3) have "(s, tok) \<in> set (globalMatch t (pos + 1))"
        by (subst (asm) globalMatch.simps) simp
      with True None 1(1) show ?thesis by simp
    next
      case (Some n)
      with True 1(3) have "(s, tok) = (pos, take n (drop pos t)) \<or> (s, tok) \<in> set (globalMatch t (pos + n))"
        by (subst (asm) globalMatch.simps) simp
      then show ?thesis
      proof
        assume "(s, tok) = (pos, take n (drop pos t))"
        then have tok: "tok = take n (drop pos t)" by simp
        from matchAt_Some[OF Some] obtain v where v: "tokenName v" "take n (drop pos t) = 0x3A # v @ [0x3A]"
          by blast
        have "t = take pos t @ take n (drop pos t) @ drop n (drop pos t)"
          by (metis append_take_drop_id)
        then have "sublist tok t" unfolding tok sublist_def by blast
        with v tok show ?thesis by auto
      next
        assume "(s, tok) \<in> set (globalMatch t (pos + n))"
        with True Some 1(2) show ?thesis by simp
      qed
    qed
  qed
qed

lemma replaceLoop_none:
  "(\<forall>(s, tok)\<in>set ms. lookup (mid (toLower tok) 1 (int (length tok) - 2)) = None) \<Longrightarrow>
   replaceLoop lookup ms offset ret = ret"
  by (induction ms arbitrary: offset ret) (auto simp: Let_def)

lemma mid_inner:
  "2 \<le> length tok \<Longrightarrow>
   mid (toLower tok) 1 (int (length tok) - 2) = toLower (take (length tok - 2) (drop 1 tok))"
  by (simp add: mid_def toLower_def take_map drop_map nat_diff_distrib')

lemma replace_at:
  assumes "pos \<le> start" "start + n \<le> length t"
  shows "replace (out @ drop pos t) (int (length out) - int pos + int start) (int n) g
       = out @ take (start - pos) (drop pos t) @ g @ drop (start + n) t"
proof -
  let ?ret = "out @ drop pos t"
  have position: "int (length out) - int pos + int start = int (length out + (start - pos))"
    using assms(1) by simp
  have inside: "length out + (start - pos) \<le> length ?ret" using assms by simp
  have room: "\<not> int (length ?ret) - int (length out + (start - pos)) < int n"
    using assms by simp
  have t1: "take (length out + (start - pos)) ?ret = out @ take (start - pos) (drop pos t)"
    by simp
  have t2: "drop (length out + (start - pos) + n) ?ret = drop (start + n) t"
    using assms by (simp add: add.commute add.left_commute)
  show ?thesis
    unfolding position replace_def Let_def
    using inside room t1 t2 by (simp del: take_append drop_append of_nat_add)
qed

lemma replaceLoop_spec:
  "matchesFrom t pos ms \<Longrightarrow> pos \<le> length t \<Longrightarrow>
   replaceLoop lookup ms (int (length out) - int pos) (out @ drop pos t)
     = out @ spec_substitute lookup t pos ms"
proof (induction ms arbitrary: pos out)
  case Nil
  then show ?case by simp
next
  case (Cons m ms)
  obtain start token where m: "m = (start, token)" by (cases m)
  let ?n = "length token"
  from Cons.prems(1) m have le: "pos \<le> start" and len: "2 \<le> ?n"
    and occ: "occursAt t start token" and rest: "matchesFrom t (start + ?n) ms"
    by simp_all
  from occ have bound: "start + ?n \<le> length t" and tok: "take ?n (drop start t) = token"
    by (simp_all add: occursAt_def)
  let ?between = "take (start - pos) (drop pos t)"
  have lb: "length ?between = start - pos" using bound le by simp
  have split: "?between @ token @ drop (start + ?n) t = drop pos t"
    using take_mid_drop[OF le bound] tok by simp
  have key: "mid (toLower token) (Suc 0) (int ?n - 2) = toLower (take (?n - 2) (drop (Suc 0) token))"
    using mid_inner[OF len] by simp
  have look: "lookup (toLower (take (?n - 2) (drop 1 token)))
            = lookup (toLower (take (?n - 2) (drop (Suc 0) token)))" by simp
  show ?case
  proof (cases "lookup (toLower (take (?n - 2) (drop 1 token)))")
    case None
    let ?out = "out @ ?between @ token"
    have off: "int (length out) - int pos = int (length ?out) - int (start + ?n)"
      using lb le by simp
    have ret: "out @ drop pos t = ?out @ drop (start + ?n) t" using split by simp
    have "replaceLoop lookup (m # ms) (int (length out) - int pos) (out @ drop pos t)
        = replaceLoop lookup ms (int (length out) - int pos) (out @ drop pos t)"
      using None by (simp add: m key Let_def)
    also have "\<dots> = replaceLoop lookup ms (int (length ?out) - int (start + ?n))
                        (?out @ drop (start + ?n) t)"
      by (simp only: off ret)
    also have "\<dots> = ?out @ spec_substitute lookup t (start + ?n) ms"
      using rest bound by (rule Cons.IH)
    also have "\<dots> = out @ spec_substitute lookup t pos (m # ms)"
      using None by (simp add: m)
    finally show ?thesis .
  next
    case (Some e)
    let ?g = "value' e"
    let ?out = "out @ ?between @ ?g"
    have off: "int (length out) - int pos + (int (length ?g) - int ?n)
              = int (length ?out) - int (start + ?n)"
      using lb le by simp
    have ret: "replace (out @ drop pos t) (int (length out) - int pos + int start) (int ?n) ?g
              = ?out @ drop (start + ?n) t"
      using replace_at[OF le bound] by simp
    have "replaceLoop lookup (m # ms) (int (length out) - int pos) (out @ drop pos t)
        = replaceLoop lookup ms (int (length out) - int pos + (int (length ?g) - int ?n))
            (replace (out @ drop pos t) (int (length out) - int pos + int start) (int ?n) ?g)"
      using Some by (simp add: m key Let_def)
    also have "\<dots> = replaceLoop lookup ms (int (length ?out) - int (start + ?n))
                        (?out @ drop (start + ?n) t)"
      by (simp only: off ret)
    also have "\<dots> = ?out @ spec_substitute lookup t (start + ?n) ms"
      using rest bound by (rule Cons.IH)
    also have "\<dots> = out @ spec_substitute lookup t pos (m # ms)"
      using Some by (simp add: m)
    finally show ?thesis .
  qed
qed

lemma replaceShortCodes_spec:
  "replaceShortCodes st t = spec_substitute (shortCodeToEmoji st) t 0 (globalMatch t 0)"
  using replaceLoop_spec[OF globalMatch_matchesFrom, of 0 t "shortCodeToEmoji st" "[]"]
  by (simp add: replaceShortCodes_def)

lemma globalMatch_single:
  assumes "tokenName v"
  shows "globalMatch (0x3A # v @ [0x3A]) 0 = [(0, 0x3A # v @ [0x3A])]"
proof -
  let ?t = "0x3A # v @ [0x3A]"
  have m: "matchAt ?t 0 = Some (length v + 2)"
    using matchAt_token[OF assms, of "[]" "[]"] by simp
  have e: "globalMatch ?t (Suc (Suc (length v))) = []" by (subst globalMatch.simps) simp
  show ?thesis by (subst globalMatch.simps) (simp add: m e)
qed

lemma replaceShortCodes_single:
  assumes "tokenName v"
  shows "replaceShortCodes st (0x3A # v @ [0x3A])
       = (case shortCodeToEmoji st (toLower v) of
            None \<Rightarrow> 0x3A # v @ [0x3A] | Some e \<Rightarrow> value' e)"
  by (simp add: replaceShortCodes_spec globalMatch_single[OF assms] split: option.splits)

lemma shortCodeToEmoji_None [simp]:
  "shortCodeToEmoji st k = None \<longleftrightarrow> emojiShortCodeToEmoji st k = None"
  by (simp add: shortCodeToEmoji_def)

lemma shortCodeToEmoji_Some:
  "emojiShortCodeToEmoji st k = Some p \<Longrightarrow> shortCodeToEmoji st k = Some (objects st ! p)"
  by (simp add: shortCodeToEmoji_def)

section \<open>The examples, evaluated\<close>

lemmas load_eval =
  load_def loadEmojis_def newEmojis_def parseEmoji_def newEmojiData_def qs_def getSafe_def
  toLower_def toLowerChar_def bindE_def toUInt_hex_def hexDigit_def requiresSurrogates_def
  highSurrogate_def lowSurrogate_def at_def appendFirstByte_def sortEmojis_def stable_sort_def
  loadEmojiSet_def setEmote_def emojiSets_def Let_def

lemma load_smile: "load ndebug smileDataset (qs ''Google'') = Inr smileEmojis"
  by (simp add: smileDataset_def smileRaw_def smileEmojis_def smileEmoji_def load_eval
       fun_eq_iff)

lemma load_family: "loadEmojis ndebug familyDataset newEmojis = Inr familyEmojis"
  by (simp add: familyDataset_def rawOf_def familyEmojis_def emojiOf_def womanGlyph_def
       womanGirlGlyph_def manWomanGirlGlyph_def load_eval fun_eq_iff)

lemmas parse_eval = parseRecords_def parseRecordsAt_def possibleEmojisOf_def parseLoop.simps
  parseLoopAt.simps matchLoop.simps isLowSurrogate_def mid_def Let_def

lemma smile_parse:
  "parseRecords smileEmojis (qs ''hi '' @ [0xD83D, 0xDE04] @ qs '' there'')
     = [TextSeg (qs ''hi ''), EmoteSeg smileEmoji, TextSeg (qs '' there'')]"
  by (simp add: smileEmojis_def smileEmoji_def qs_def parse_eval)



lemma family_first: "emojiFirstByte familyEmojis 0xD83D = Some [0, 1, 2]"
  by (simp add: familyEmojis_def)

lemma family_prefix: "\<forall>k<3. emojiFirstByte familyEmojis ((qs ''hi '' @ womanGirlGlyph) ! k) = None"
proof (intro allI impI)
  fix k :: nat assume "k < 3"
  then have "k = 0 \<or> k = 1 \<or> k = 2" by arith
  then show "emojiFirstByte familyEmojis ((qs ''hi '' @ womanGirlGlyph) ! k) = None"
    by (auto simp: familyEmojis_def qs_def womanGirlGlyph_def)
qed

lemma family_parse_hi:
  "parseRecordsAt (sortEmojis familyEmojis) (qs ''hi '' @ womanGirlGlyph)
     = [(0, TextSeg (qs ''hi '')), (3, EmoteSeg (objects familyEmojis ! 1))]"
  by (simp add: familyEmojis_def emojiOf_def womanGlyph_def womanGirlGlyph_def
        manWomanGirlGlyph_def qs_def parse_eval sortEmojis_def stable_sort_def)

lemma family_parse_whole:
  "parseRecordsAt (sortEmojis familyEmojis) manWomanGirlGlyph
     = [(0, EmoteSeg (objects familyEmojis ! 2))]"
  by (simp add: familyEmojis_def emojiOf_def womanGlyph_def womanGirlGlyph_def
        manWomanGirlGlyph_def qs_def parse_eval sortEmojis_def stable_sort_def)

lemma kiss_parts:
  "split 0x2D (toLower (chosenCode kissRaw))
     = [qs ''1f9d1'', qs ''1f3fb'', qs ''200d'', qs ''2764'', qs ''fe0f'', qs ''200d'',
        qs ''1f48b'', qs ''200d'', qs ''1f9d1'', qs ''1f3fc'']"
  by (simp add: kissRaw_def chosenCode_def getSafe_def qs_def toLower_def toLowerChar_def)

lemma load_kiss_smile:
  "loadEmojis ndebug (Array [RawRecord kissRaw None, RawRecord smileRaw None]) newEmojis = Inl OutOfRange"
  by (simp add: kissRaw_def load_eval)

lemma loadEmojis_smile:
  "loadEmojis ndebug (Array [RawRecord smileRaw None]) newEmojis
     = Inr (smileEmojis\<lparr>objects := [smileEmoji\<lparr>emote := None\<rparr>]\<rparr>)"
  by (simp add: smileRaw_def smileEmojis_def smileEmoji_def load_eval)


lemma load_grin: "loadEmojis ndebug (Array [RawRecord grinRaw None]) newEmojis = Inr grinEmojis"
  by (simp add: grinRaw_def grinEmojis_def load_eval)


lemmas replace_eval = replaceShortCodes_def globalMatch.simps matchAt_def tokenChar_def
  shortCodeToEmoji_def toLower_def toLowerChar_def mid_def replace_def Let_def qs_def

lemma smile_replace:
  "replaceShortCodes smileEmojis (qs ''hi :smile: there'')
     = qs ''hi '' @ [0xD83D, 0xDE04] @ qs '' there''"
  by (simp add: smileEmojis_def smileEmoji_def replace_eval)

lemma smile_replace_many:
  "replaceShortCodes smileEmojis (qs '':smile::x: :SMILE:'')
     = [0xD83D, 0xDE04] @ qs '':x: '' @ [0xD83D, 0xDE04]"
  by (simp add: smileEmojis_def smileEmoji_def replace_eval)

lemma smile_replace_x:
  "replaceShortCodes smileEmojis (qs '':x: :smile:'') = qs '':x: '' @ [0xD83D, 0xDE04]"
  by (simp add: smileEmojis_def smileEmoji_def replace_eval)





lemma load_dup: "load ndebug dupDataset (qs ''Google'') = Inr dupEmojis"
  by (simp add: dupDataset_def rawOf_def dupEmojis_def emojiOf_def load_eval fun_eq_iff)

lemma dup_parse: "parse dupEmojis [0xD83D, 0xDE04] = [EmoteSeg None]"
  by (simp add: parse_def dupEmojis_def emojiOf_def qs_def parse_eval)

lemma dup_parseRecords:
  "parseRecords dupEmojis [0xD83D, 0xDE04] = [EmoteSeg (objects dupEmojis ! 0)]"
  by (simp add: dupEmojis_def emojiOf_def qs_def parse_eval)

section \<open>Tone names: what \<open>getToneNames\<close> returns\<close>

lemma toneLoop_fst: "fst (toneLoop parts) = List.map_filter toneNames parts"
  by (induction parts) (auto simp: List.map_filter_simps split: option.splits)

lemma toneLoop_snd: "snd (toneLoop parts) = filter (\<lambda>part. toneNames part = None) parts"
  by (induction parts) (auto split: option.splits)

text \<open>
  C5. For every tone key, \<open>getToneNames\<close> splits the key at \<open>-\<close>, looks every part up in
  the table of the five tones, reports the parts that are missing and joins the names of
  the others with \<open>-\<close>: so it does whenever some part of the key is in the table, which
  is what its callers owe it, and in both builds; compiled with \<open>NDEBUG\<close> it does so for
  every key. Where no part is in the table and assertions are on, the assertion fails.
  The table is \<open>1F3FB\<close> to \<open>1F3FF\<close> for \<open>tone1\<close> to \<open>tone5\<close>; \<open>1F3FB-1F3FF\<close> gives
  \<open>tone1-tone5\<close> and \<open>1F3FD\<close> gives \<open>tone3\<close>.
\<close>

theorem getToneNames_resolve:
  "(List.map_filter toneNames (split 0x2D tones) \<noteq> [] \<or> ndebug \<longrightarrow>
      getToneNames ndebug tones =
        (Inr (join 0x2D (List.map_filter toneNames (split 0x2D tones))),
         filter (\<lambda>part. toneNames part = None) (split 0x2D tones)))
   \<and> (List.map_filter toneNames (split 0x2D tones) = [] \<and> \<not> ndebug \<longrightarrow>
      getToneNames ndebug tones =
        (Inl AssertionFailed, filter (\<lambda>part. toneNames part = None) (split 0x2D tones)))
   \<and> dom toneNames = {qs ''1F3FB'', qs ''1F3FC'', qs ''1F3FD'', qs ''1F3FE'', qs ''1F3FF''}
   \<and> toneNames (qs ''1F3FB'') = Some (qs ''tone1'')
   \<and> toneNames (qs ''1F3FC'') = Some (qs ''tone2'')
   \<and> toneNames (qs ''1F3FD'') = Some (qs ''tone3'')
   \<and> toneNames (qs ''1F3FE'') = Some (qs ''tone4'')
   \<and> toneNames (qs ''1F3FF'') = Some (qs ''tone5'')
   \<and> getToneNames ndebug (qs ''1F3FB-1F3FF'') = (Inr (qs ''tone1-tone5''), [])
   \<and> getToneNames ndebug (qs ''1F3FD'') = (Inr (qs ''tone3''), [])"
proof -
  have a: "List.map_filter toneNames (split 0x2D tones) \<noteq> [] \<or> ndebug \<longrightarrow>
      getToneNames ndebug tones =
        (Inr (join 0x2D (List.map_filter toneNames (split 0x2D tones))),
         filter (\<lambda>part. toneNames part = None) (split 0x2D tones))"
    by (auto simp: getToneNames_def Let_def toneLoop_fst toneLoop_snd)
  have a': "List.map_filter toneNames (split 0x2D tones) = [] \<and> \<not> ndebug \<longrightarrow>
      getToneNames ndebug tones =
        (Inl AssertionFailed, filter (\<lambda>part. toneNames part = None) (split 0x2D tones))"
    by (simp add: getToneNames_def Let_def toneLoop_fst toneLoop_snd)
  have b: "dom toneNames = {qs ''1F3FB'', qs ''1F3FC'', qs ''1F3FD'', qs ''1F3FE'', qs ''1F3FF''}"
    by (auto simp: toneNames_def dom_map_of_conv_image_fst)
  have c: "toneNames (qs ''1F3FB'') = Some (qs ''tone1'')"
    "toneNames (qs ''1F3FC'') = Some (qs ''tone2'')"
    "toneNames (qs ''1F3FD'') = Some (qs ''tone3'')"
    "toneNames (qs ''1F3FE'') = Some (qs ''tone4'')"
    "toneNames (qs ''1F3FF'') = Some (qs ''tone5'')"
    by (simp_all add: toneNames_def qs_def)
  have d: "getToneNames ndebug (qs ''1F3FB-1F3FF'') = (Inr (qs ''tone1-tone5''), [])"
    by (simp add: getToneNames_def qs_def toneNames_def)
  have e: "getToneNames ndebug (qs ''1F3FD'') = (Inr (qs ''tone3''), [])"
    by (simp add: getToneNames_def qs_def toneNames_def)
  from a a' b c d e show ?thesis by blast
qed

text \<open>
  The key \<open>1F3FB-1F3FA-1F3FF\<close>, with assertions on: the part \<open>1F3FA\<close> is not in the
  table, it is reported and left out, and the names of the two other parts are joined.
  The key \<open>1F3FA\<close> alone: compiled with \<open>NDEBUG\<close> the result is the empty string, and
  with assertions on the assertion fails.
\<close>

theorem getToneNames_resolve_witness:
  "List.map_filter toneNames (split 0x2D (qs ''1F3FB-1F3FA-1F3FF'')) = [qs ''tone1'', qs ''tone5'']
   \<and> getToneNames False (qs ''1F3FB-1F3FA-1F3FF'') = (Inr (qs ''tone1-tone5''), [qs ''1F3FA''])
   \<and> getToneNames True (qs ''1F3FB-1F3FA-1F3FF'') = (Inr (qs ''tone1-tone5''), [qs ''1F3FA''])
   \<and> List.map_filter toneNames (split 0x2D (qs ''1F3FA'')) = []
   \<and> getToneNames True (qs ''1F3FA'') = (Inr [], [qs ''1F3FA''])
   \<and> getToneNames False (qs ''1F3FA'') = (Inl AssertionFailed, [qs ''1F3FA''])"
proof -
  have p: "List.map_filter toneNames (split 0x2D (qs ''1F3FB-1F3FA-1F3FF''))
             = [qs ''tone1'', qs ''tone5'']"
    "filter (\<lambda>part. toneNames part = None) (split 0x2D (qs ''1F3FB-1F3FA-1F3FF''))
             = [qs ''1F3FA'']"
    "join 0x2D [qs ''tone1'', qs ''tone5''] = qs ''tone1-tone5''"
    "List.map_filter toneNames (split 0x2D (qs ''1F3FA'')) = []"
    "filter (\<lambda>part. toneNames part = None) (split 0x2D (qs ''1F3FA'')) = [qs ''1F3FA'']"
    by (simp_all add: qs_def toneNames_def List.map_filter_simps)
  have w1: "getToneNames False (qs ''1F3FB-1F3FA-1F3FF'') = (Inr (qs ''tone1-tone5''), [qs ''1F3FA''])"
    using conjunct1[OF getToneNames_resolve[of "qs ''1F3FB-1F3FA-1F3FF''" False]] p by simp
  have w2: "getToneNames True (qs ''1F3FB-1F3FA-1F3FF'') = (Inr (qs ''tone1-tone5''), [qs ''1F3FA''])"
    using conjunct1[OF getToneNames_resolve[of "qs ''1F3FB-1F3FA-1F3FF''" True]] p by simp
  have w3: "getToneNames True (qs ''1F3FA'') = (Inr [], [qs ''1F3FA''])"
    using conjunct1[OF getToneNames_resolve[of "qs ''1F3FA''" True]] p by simp
  have w4: "getToneNames False (qs ''1F3FA'') = (Inl AssertionFailed, [qs ''1F3FA''])"
    using conjunct1[OF conjunct2[OF getToneNames_resolve[of "qs ''1F3FA''" False]]] p by simp
  from p w1 w2 w3 w4 show ?thesis by simp
qed

section \<open>The segments of a scan give the text back\<close>

lemma parseRecords_concat_wf:
  "wfEmojis st \<Longrightarrow> concat (map segmentText (parseRecords st t)) = t"
  using parseLoop_concat[OF wfEmojis_wfIndex, of st 0 0 t] by (simp add: parseRecords_def)

lemma parseRecords_Nil: "parseRecords st [] = []"
  by (simp add: parseRecords_def parseLoop_done)

lemma parseRecords_no_emote:
  "(\<forall>e. EmoteSeg e \<notin> set (parseRecords st t)) \<Longrightarrow> t \<noteq> [] \<Longrightarrow> parseRecords st t = [TextSeg t]"
  using parseLoop_no_emote[of "possibleEmojisOf st" t 0 0] by (simp add: parseRecords_def)

text \<open>
  C10. For every object that \<open>load\<close> builds and every text, the segments of the scan,
  each emote segment read as the glyph of the matched record, concatenate to the text;
  \<open>parse\<close> returns these segments with the \<open>emote\<close> of each matched record. The empty
  text gives no segment, and a text in which the scan finds no emoji gives the whole text
  as one segment.
\<close>

theorem parse_concat:
  assumes "load ndebug root emojiSet = Inr st"
  shows "concat (map segmentText (parseRecords st t)) = t
     \<and> parse st t = map (map_segment emote) (parseRecords st t)
     \<and> parseRecords st [] = [] \<and> parse st [] = []
     \<and> ((\<forall>e. EmoteSeg e \<notin> set (parseRecords st t)) \<and> t \<noteq> [] \<longrightarrow>
          parseRecords st t = [TextSeg t] \<and> parse st t = [TextSeg t])"
proof -
  from assms have "wfEmojis st" by (rule load_wf)
  then have "concat (map segmentText (parseRecords st t)) = t" by (rule parseRecords_concat_wf)
  moreover have "parse st t = map (map_segment emote) (parseRecords st t)"
    by (simp add: parse_def)
  moreover have "parseRecords st [] = []" "parse st [] = []"
    by (simp_all add: parse_def parseRecords_Nil)
  moreover have "(\<forall>e. EmoteSeg e \<notin> set (parseRecords st t)) \<and> t \<noteq> [] \<longrightarrow>
          parseRecords st t = [TextSeg t] \<and> parse st t = [TextSeg t]"
    by (simp add: parse_def parseRecords_no_emote)
  ultimately show ?thesis by blast
qed

text \<open>The spec's scenario: the text \<open>hi\<close>, the smile glyph, \<open>there\<close>.\<close>

theorem parse_concat_witness:
  "load False smileDataset (qs ''Google'') = Inr smileEmojis
   \<and> load True smileDataset (qs ''Google'') = Inr smileEmojis
   \<and> parseRecords smileEmojis (qs ''hi '' @ [0xD83D, 0xDE04] @ qs '' there'')
       = [TextSeg (qs ''hi ''), EmoteSeg smileEmoji, TextSeg (qs '' there'')]
   \<and> concat (map segmentText (parseRecords smileEmojis (qs ''hi '' @ [0xD83D, 0xDE04] @ qs '' there'')))
       = qs ''hi '' @ [0xD83D, 0xDE04] @ qs '' there''
   \<and> parse smileEmojis (qs ''hi '' @ [0xD83D, 0xDE04] @ qs '' there'')
       = [TextSeg (qs ''hi ''), EmoteSeg (emote smileEmoji), TextSeg (qs '' there'')]
   \<and> parseRecords smileEmojis (qs ''hi'') = [TextSeg (qs ''hi'')]"
  using parse_concat[OF load_smile, of "qs ''hi '' @ [0xD83D, 0xDE04] @ qs '' there''"]
    parse_concat[OF load_smile, of "qs ''hi''"] load_smile smile_parse
  by (simp add: smileEmojis_def smileEmoji_def qs_def parse_eval)

section \<open>Surrogate pairs are not split\<close>




section \<open>The longest match comes first\<close>

text \<open>
  C1, as amended. Take an object in which the records of the glyphs \<open>A\<close> and \<open>A @ B\<close>
  (\<open>B\<close> not empty) are listed under the same first code unit \<open>c\<close>, not a low surrogate,
  and a text with \<open>A @ B\<close> at position \<open>p\<close>. After \<open>sortEmojis\<close> the list under \<open>c\<close> is
  sorted by descending glyph length, records of equal length in their old order.
  Whenever the outer loop is at position \<open>p\<close> (for any \<open>lastParsedEmojiEndIndex\<close>) it
  emits there the first record \<open>r\<close> of the sorted list that fits and matches, and the glyph
  of \<open>r\<close> is at least as long as \<open>A @ B\<close>: it is never the record of \<open>A\<close>. Every emote the
  scan emits at \<open>p\<close> is \<open>r\<close>; the scan does emit \<open>r\<close> at \<open>p\<close> when no code unit before \<open>p\<close>
  is a first code unit of the index; and \<open>r\<close> is the record of \<open>A @ B\<close> when the
  candidates that match at \<open>p\<close> with a glyph at least as long are all this record.
\<close>

theorem parse_longest_match:
  assumes cands: "emojiFirstByte st c = Some ps" "pA \<in> set ps" "pAB \<in> set ps"
    and A: "value' (objects st ! pA) = A" and AB: "value' (objects st ! pAB) = A @ B"
    and ne: "A \<noteq> []" "B \<noteq> []" and hd: "hd A = c" and low: "\<not> isLowSurrogate c"
    and occ: "occursAt t p (A @ B)"
  shows "\<exists>es r. possibleEmojisOf (sortEmojis st) c = Some es
      \<and> sorted_wrt (\<lambda>a b. length (value' b) \<le> length (value' a)) es
      \<and> (\<forall>n. filter (\<lambda>e. length (value' e) = n) es
              = filter (\<lambda>e. length (value' e) = n) (map (\<lambda>q. objects st ! q) ps))
      \<and> findEmoji t p es = Some r
      \<and> length (A @ B) \<le> length (value' r) \<and> r \<noteq> objects st ! pA
      \<and> (\<forall>l. parseLoopAt (possibleEmojisOf (sortEmojis st)) t p l =
             (if l < p then [(l, TextSeg (take (p - l) (drop l t)))] else [])
             @ (p, EmoteSeg r)
             # parseLoopAt (possibleEmojisOf (sortEmojis st)) t
                 (p + length (value' r)) (p + length (value' r)))
      \<and> (\<forall>r'. (p, EmoteSeg r') \<in> set (parseRecordsAt (sortEmojis st) t) \<longrightarrow> r' = r)
      \<and> ((\<forall>k<p. emojiFirstByte st (t ! k) = None) \<longrightarrow>
            (p, EmoteSeg r) \<in> set (parseRecordsAt (sortEmojis st) t))
      \<and> ((\<forall>q\<in>set ps. candidate t p (objects st ! q)
                \<and> length (A @ B) \<le> length (value' (objects st ! q))
              \<longrightarrow> objects st ! q = objects st ! pAB)
            \<longrightarrow> r = objects st ! pAB)"
proof -
  let ?idx = "possibleEmojisOf (sortEmojis st)"
  let ?k = "\<lambda>q. length (value' (objects st ! q))"
  let ?sorted = "stable_sort (\<lambda>lhs rhs. ?k rhs < ?k lhs) ps"
  let ?es = "map (\<lambda>q. objects st ! q) ?sorted"
  let ?rAB = "objects st ! pAB"
  have es: "?idx c = Some ?es" using cands(1) by (simp add: possibleEmojisOf_sortEmojis)
  have sorted: "sorted_wrt (\<lambda>a b. length (value' b) \<le> length (value' a)) ?es"
    using es by (rule possibleEmojisOf_sortEmojis_sorted)
  have set_es: "set ?es = (\<lambda>q. objects st ! q) ` set ps" by (simp add: stable_sort_set)
  have stable: "\<forall>n. filter (\<lambda>e. length (value' e) = n) ?es
              = filter (\<lambda>e. length (value' e) = n) (map (\<lambda>q. objects st ! q) ps)"
    using stable_sort_stable[where k = ?k and xs = ps] by (simp add: filter_map comp_def)
  have rAB_in: "?rAB \<in> set ?es" using cands(3) set_es by blast
  have rAB_ne: "value' ?rAB \<noteq> []" using AB ne by simp
  have rAB_occ: "occursAt t p (value' ?rAB)" using occ AB by simp
  have tp: "t ! p = c" using occursAt_candidate(3)[OF rAB_occ rAB_ne] AB ne hd by simp
  have idx_tp: "?idx (t ! p) = Some ?es" using es tp by simp
  have lowp: "\<not> isLowSurrogate (t ! p)" using low tp by simp
  from emojiAt_sorted_longest[where idx = ?idx and t = t and p = p and es = ?es and x = ?rAB,
      OF idx_tp sorted rAB_in rAB_occ rAB_ne lowp]
  obtain r where r: "emojiAt ?idx t p = Some r" "findEmoji t p ?es = Some r"
    "length (value' ?rAB) \<le> length (value' r)"
    by auto
  have len: "length (A @ B) \<le> length (value' r)" using r(3) AB by simp
  have notA: "r \<noteq> objects st ! pA"
  proof
    assume "r = objects st ! pA"
    with A len ne show False by simp
  qed
  have step: "\<forall>l. parseLoopAt ?idx t p l =
             (if l < p then [(l, TextSeg (take (p - l) (drop l t)))] else [])
             @ (p, EmoteSeg r) # parseLoopAt ?idx t (p + length (value' r)) (p + length (value' r))"
    using parseLoopAt_emit[OF r(1)] by blast
  have uniq: "\<forall>r'. (p, EmoteSeg r') \<in> set (parseRecordsAt (sortEmojis st) t) \<longrightarrow> r' = r"
    using parseRecordsAt_emote r(1) by fastforce
  have pre: "(\<forall>k<p. emojiFirstByte st (t ! k) = None) \<longrightarrow>
            (p, EmoteSeg r) \<in> set (parseRecordsAt (sortEmojis st) t)"
  proof
    assume none: "\<forall>k<p. emojiFirstByte st (t ! k) = None"
    have "\<forall>k. 0 \<le> k \<and> k < p \<longrightarrow> emojiAt ?idx t k = None"
      using none by (simp add: emojiAt_def possibleEmojisOf_sortEmojis)
    moreover have "p \<le> length t" using occ by (simp add: occursAt_def)
    ultimately have "parseLoopAt ?idx t 0 0 = parseLoopAt ?idx t p 0"
      by (intro parseLoopAt_prefix_skip) simp_all
    then show "(p, EmoteSeg r) \<in> set (parseRecordsAt (sortEmojis st) t)"
      using step by (simp add: parseRecordsAt_def)
  qed
  have only: "(\<forall>q\<in>set ps. candidate t p (objects st ! q)
                \<and> length (A @ B) \<le> length (value' (objects st ! q))
              \<longrightarrow> objects st ! q = objects st ! pAB)
            \<longrightarrow> r = objects st ! pAB"
  proof
    assume h: "\<forall>q\<in>set ps. candidate t p (objects st ! q)
                \<and> length (A @ B) \<le> length (value' (objects st ! q))
              \<longrightarrow> objects st ! q = objects st ! pAB"
    from r(2) have "r \<in> set ?es" "candidate t p r"
      by (auto simp: findEmoji_find find_Some_iff)
    then obtain q where "q \<in> set ps" "r = objects st ! q" using set_es by auto
    with h \<open>candidate t p r\<close> len show "r = objects st ! pAB" by blast
  qed
  from es sorted stable r(2) len notA step uniq pre only show ?thesis by blast
qed

text \<open>
  The records woman and woman-girl under \<open>D83D\<close>, and the text \<open>hi\<close> followed by the
  glyph of woman-girl: the scan emits the record of woman-girl at position 3.
\<close>

theorem parse_longest_match_witness:
  "emojiFirstByte familyEmojis 0xD83D = Some [0, 1, 2]
   \<and> value' (objects familyEmojis ! 0) = womanGlyph
   \<and> value' (objects familyEmojis ! 1) = womanGlyph @ [0x200D, 0xD83D, 0xDC67]
   \<and> hd womanGlyph = 0xD83D \<and> \<not> isLowSurrogate 0xD83D
   \<and> occursAt (qs ''hi '' @ womanGirlGlyph) 3 (womanGlyph @ [0x200D, 0xD83D, 0xDC67])
   \<and> (\<exists>r. (3, EmoteSeg r) \<in> set (parseRecordsAt (sortEmojis familyEmojis) (qs ''hi '' @ womanGirlGlyph))
          \<and> length (womanGlyph @ [0x200D, 0xD83D, 0xDC67]) \<le> length (value' r)
          \<and> r \<noteq> objects familyEmojis ! 0)
   \<and> parseRecordsAt (sortEmojis familyEmojis) (qs ''hi '' @ womanGirlGlyph)
       = [(0, TextSeg (qs ''hi '')), (3, EmoteSeg (objects familyEmojis ! 1))]"
proof -
  have g: "value' (objects familyEmojis ! 0) = womanGlyph"
    "value' (objects familyEmojis ! 1) = womanGlyph @ [0x200D, 0xD83D, 0xDC67]"
    by (simp_all add: familyEmojis_def emojiOf_def womanGlyph_def womanGirlGlyph_def)
  have h: "hd womanGlyph = 0xD83D" "\<not> isLowSurrogate 0xD83D" "womanGlyph \<noteq> []"
    by (simp_all add: womanGlyph_def isLowSurrogate_def)
  have o: "occursAt (qs ''hi '' @ womanGirlGlyph) 3 (womanGlyph @ [0x200D, 0xD83D, 0xDC67])"
    by (simp add: occursAt_def qs_def womanGlyph_def womanGirlGlyph_def)
  have m: "0 \<in> set [0, 1, 2::nat]" "1 \<in> set [0, 1, 2::nat]" by simp_all
  have b: "[0x200D, 0xD83D, 0xDC67] \<noteq> ([] :: QString)" by simp
  from parse_longest_match[OF family_first m g(1) g(2) h(3) b h(1) h(2) o]
  obtain r where "length (womanGlyph @ [0x200D, 0xD83D, 0xDC67]) \<le> length (value' r)"
    "r \<noteq> objects familyEmojis ! 0"
    "(\<forall>k<3. emojiFirstByte familyEmojis ((qs ''hi '' @ womanGirlGlyph) ! k) = None) \<longrightarrow>
       (3, EmoteSeg r) \<in> set (parseRecordsAt (sortEmojis familyEmojis) (qs ''hi '' @ womanGirlGlyph))"
    by blast
  with family_prefix have "\<exists>r. (3, EmoteSeg r) \<in> set (parseRecordsAt (sortEmojis familyEmojis) (qs ''hi '' @ womanGirlGlyph))
          \<and> length (womanGlyph @ [0x200D, 0xD83D, 0xDC67]) \<le> length (value' r)
          \<and> r \<noteq> objects familyEmojis ! 0"
    by blast
  with family_first g h o family_parse_hi show ?thesis by blast
qed

text \<open>
  C1 as stated fails: the glyph of man-woman-girl contains the glyph of woman-girl at
  position 3, and the scan of it returns one segment, the record of man-woman-girl. The
  match at position 0 consumes position 3, which the loop never examines, so the record
  of woman-girl is not returned there.
\<close>

theorem parse_longest_match_counterexample:
  "loadEmojis False familyDataset newEmojis = Inr familyEmojis
   \<and> loadEmojis True familyDataset newEmojis = Inr familyEmojis
   \<and> emojiFirstByte familyEmojis 0xD83D = Some [0, 1, 2]
   \<and> value' (objects familyEmojis ! 0) = womanGlyph
   \<and> value' (objects familyEmojis ! 1) = womanGlyph @ [0x200D, 0xD83D, 0xDC67]
   \<and> occursAt manWomanGirlGlyph 3 (womanGlyph @ [0x200D, 0xD83D, 0xDC67])
   \<and> parseRecordsAt (sortEmojis familyEmojis) manWomanGirlGlyph
       = [(0, EmoteSeg (objects familyEmojis ! 2))]
   \<and> (3, EmoteSeg (objects familyEmojis ! 1))
       \<notin> set (parseRecordsAt (sortEmojis familyEmojis) manWomanGirlGlyph)"
proof -
  have g: "value' (objects familyEmojis ! 0) = womanGlyph"
    "value' (objects familyEmojis ! 1) = womanGlyph @ [0x200D, 0xD83D, 0xDC67]"
    by (simp_all add: familyEmojis_def emojiOf_def womanGlyph_def womanGirlGlyph_def)
  have o: "occursAt manWomanGirlGlyph 3 (womanGlyph @ [0x200D, 0xD83D, 0xDC67])"
    by (simp add: occursAt_def womanGlyph_def manWomanGirlGlyph_def)
  have n: "(3, EmoteSeg (objects familyEmojis ! 1))
       \<notin> set (parseRecordsAt (sortEmojis familyEmojis) manWomanGirlGlyph)"
    by (simp add: family_parse_whole)
  from load_family family_first g o family_parse_whole n show ?thesis by blast
qed

section \<open>The image URL of a record\<close>

text \<open>
  What \<open>loadEmojiSet\<close> does for a record that \<open>emojis\<close> holds. The function that it
  applies gives the record an emote whose image URL is the spec's: the prefix that
  \<open>emojiSets\<close> has for the vendor to use (the emoji set if the capabilities of the record
  contain it, Twitter otherwise), or the default prefix when the table has none, then the
  lowercase unified code, then \<open>.png\<close>; and \<open>loadEmojiSet\<close> does so for every record
  of \<open>emojis\<close>. It fails only on a record without short codes, whose first short code
  the tooltip needs. With capabilities Twitter and Apple the emoji set Google resolves to
  Twitter and the default prefix, which is the prefix of Twitter.
\<close>

theorem loadEmojiSet_url:
  "(setEmote emojiSet r = Inr r' \<longrightarrow>
      (\<exists>em. emote r' = Some em \<and> name em = value' r
         \<and> images em = spec_displayUrl emojiSets defaultUrlPrefix emojiSet r))
   \<and> (shortCodes r \<noteq> [] \<longrightarrow> (\<exists>r'. setEmote emojiSet r = Inr r'))
   \<and> (loadEmojiSet emojiSet st = Inr st' \<and> p \<in> snd ` set (emojis st) \<and> p < length (objects st) \<longrightarrow>
        (\<exists>em. emote (objects st' ! p) = Some em
           \<and> images em = spec_displayUrl emojiSets defaultUrlPrefix emojiSet (objects st ! p)))
   \<and> (capabilities r = {qs ''Twitter'', qs ''Apple''} \<longrightarrow>
        spec_vendorToUse (qs ''Google'') r = qs ''Twitter''
        \<and> spec_displayUrl emojiSets defaultUrlPrefix (qs ''Google'') r
            = defaultUrlPrefix @ toLower (unifiedCode r) @ qs ''.png'')
   \<and> emojiSets (qs ''Twitter'') = Some defaultUrlPrefix
   \<and> dom emojiSets = {qs ''Twitter'', qs ''Facebook'', qs ''Apple'', qs ''Google''}"
proof -
  have a: "setEmote emojiSet r = Inr r' \<longrightarrow>
      (\<exists>em. emote r' = Some em \<and> name em = value' r
         \<and> images em = spec_displayUrl emojiSets defaultUrlPrefix emojiSet r)"
    by (auto simp: setEmote_Inr)
  have b: "shortCodes r \<noteq> [] \<longrightarrow> (\<exists>r'. setEmote emojiSet r = Inr r')"
    by (cases "shortCodes r") (auto simp: setEmote_Inr)
  have c: "loadEmojiSet emojiSet st = Inr st' \<and> p \<in> snd ` set (emojis st) \<and> p < length (objects st) \<longrightarrow>
        (\<exists>em. emote (objects st' ! p) = Some em
           \<and> images em = spec_displayUrl emojiSets defaultUrlPrefix emojiSet (objects st ! p))"
  proof
    assume h: "loadEmojiSet emojiSet st = Inr st' \<and> p \<in> snd ` set (emojis st) \<and> p < length (objects st)"
    then have "setEmote emojiSet (objects st ! p) = Inr (objects st' ! p)"
      using loadEmojiSet_result(6)[of emojiSet st st' p] by blast
    then show "\<exists>em. emote (objects st' ! p) = Some em
           \<and> images em = spec_displayUrl emojiSets defaultUrlPrefix emojiSet (objects st ! p)"
      by (auto simp: setEmote_Inr)
  qed
  have d: "capabilities r = {qs ''Twitter'', qs ''Apple''} \<longrightarrow>
        spec_vendorToUse (qs ''Google'') r = qs ''Twitter''
        \<and> spec_displayUrl emojiSets defaultUrlPrefix (qs ''Google'') r
            = defaultUrlPrefix @ toLower (unifiedCode r) @ qs ''.png''"
    by (simp add: spec_vendorToUse_def spec_displayUrl_def emojiSets_def defaultUrlPrefix_def qs_def)
  have e: "emojiSets (qs ''Twitter'') = Some defaultUrlPrefix"
    by (simp add: emojiSets_def defaultUrlPrefix_def)
  have f: "dom emojiSets = {qs ''Twitter'', qs ''Facebook'', qs ''Apple'', qs ''Google''}"
    by (auto simp: emojiSets_def dom_map_of_conv_image_fst)
  from a b c d e f show ?thesis by blast
qed

text \<open>The smile record, with images of Apple and Twitter, for the emoji set Google.\<close>

theorem loadEmojiSet_url_witness:
  "setEmote (qs ''Google'') (smileEmoji\<lparr>emote := None\<rparr>) = Inr smileEmoji
   \<and> capabilities (smileEmoji\<lparr>emote := None\<rparr>) = {qs ''Twitter'', qs ''Apple''}
   \<and> emote smileEmoji = Some \<lparr>name = [0xD83D, 0xDE04],
          images = qs ''https://pajbot.com/static/emoji-v2/img/twitter/64/1f604.png'',
          tooltip = qs '':smile:<br/>Emoji'', homePage = []\<rparr>
   \<and> spec_displayUrl emojiSets defaultUrlPrefix (qs ''Google'') (smileEmoji\<lparr>emote := None\<rparr>)
       = qs ''https://pajbot.com/static/emoji-v2/img/twitter/64/1f604.png''
   \<and> loadEmojiSet (qs ''Google'') (smileEmojis\<lparr>objects := [smileEmoji\<lparr>emote := None\<rparr>]\<rparr>)
       = Inr smileEmojis
   \<and> 0 \<in> snd ` set (emojis (smileEmojis\<lparr>objects := [smileEmoji\<lparr>emote := None\<rparr>]\<rparr>))"
  using loadEmojiSet_url[of "qs ''Google''" "smileEmoji\<lparr>emote := None\<rparr>" smileEmoji
      "smileEmojis\<lparr>objects := [smileEmoji\<lparr>emote := None\<rparr>]\<rparr>" smileEmojis 0]
  by (simp add: smileEmojis_def smileEmoji_def setEmote_def loadEmojiSet_def bindE_def Let_def
        emojiSets_def qs_def toLower_def toLowerChar_def spec_displayUrl_def spec_vendorToUse_def
        defaultUrlPrefix_def)

text \<open>
  C6. \<open>loadEmojiSet\<close> goes through \<open>emojis\<close>, the map from the unified code, in which
  a record replaces an earlier one with the same unified code. In the dataset of two
  records with the unified code \<open>1F604\<close>, the first record is not in \<open>emojis\<close> any more
  when \<open>loadEmojiSet\<close> runs: it gets no emote and so no image URL, where the spec's URL
  for it is the one of Google, while it still is the record of its short code and the first
  candidate under its first code unit, so \<open>parse\<close> returns its null emote for the glyph.
  The second record has the spec's URL.
\<close>

theorem loadEmojiSet_shadowed:
  "load False dupDataset (qs ''Google'') = Inr dupEmojis
   \<and> load True dupDataset (qs ''Google'') = Inr dupEmojis
   \<and> length (objects dupEmojis) = 2
   \<and> unifiedCode (objects dupEmojis ! 0) = qs ''1F604''
   \<and> unifiedCode (objects dupEmojis ! 1) = qs ''1F604''
   \<and> emojis dupEmojis = [(qs ''1F604'', 1)]
   \<and> emojiShortCodeToEmoji dupEmojis (qs ''smile'') = Some 0
   \<and> emojiFirstByte dupEmojis 0xD83D = Some [0, 1]
   \<and> emote (objects dupEmojis ! 0) = None
   \<and> qs ''Google'' \<in> capabilities (objects dupEmojis ! 0)
   \<and> spec_displayUrl emojiSets defaultUrlPrefix (qs ''Google'') (objects dupEmojis ! 0)
       = qs ''https://pajbot.com/static/emoji-v2/img/google/64/1f604.png''
   \<and> map_option images (emote (objects dupEmojis ! 1))
       = Some (spec_displayUrl emojiSets defaultUrlPrefix (qs ''Google'') (objects dupEmojis ! 1))
   \<and> parseRecords dupEmojis [0xD83D, 0xDE04] = [EmoteSeg (objects dupEmojis ! 0)]
   \<and> parse dupEmojis [0xD83D, 0xDE04] = [EmoteSeg None]"
  using load_dup[of False] load_dup[of True] dup_parse dup_parseRecords
  by (simp add: dupEmojis_def emojiOf_def spec_displayUrl_def spec_vendorToUse_def emojiSets_def
        defaultUrlPrefix_def toLower_def toLowerChar_def qs_def)

section \<open>More than nine code points\<close>

text \<open>
  C2, as amended. \<open>parseEmoji\<close> decodes the chosen code of a record when it has at most
  nine code points. When it has more, the tenth write to \<open>unicodeBytes\<close> throws
  \<open>std::out_of_range\<close>; \<open>loadEmojis\<close> has no handler, so the load ends with an error at
  the first such record at the latest: the record is not skipped, and neither it nor any
  record after it is registered.
\<close>

theorem parseEmoji_codepoint_cap:
  "(9 < length (split 0x2D (toLower (chosenCode r))) \<longrightarrow>
      parseEmoji newEmojiData r sc = Inl OutOfRange
      \<and> loadEmojisLoop ndebug (RawRecord r variations # rest) st = Inl OutOfRange
      \<and> (\<exists>err. loadEmojisLoop ndebug (before @ RawRecord r variations # rest) st = Inl err)
      \<and> (\<forall>st1. loadEmojisLoop ndebug before st = Inr st1 \<longrightarrow>
            loadEmojisLoop ndebug (before @ RawRecord r variations # rest) st = Inl OutOfRange)
      \<and> (\<exists>err. loadEmojis ndebug (Array (before @ RawRecord r variations # rest)) newEmojis = Inl err))
   \<and> (length (split 0x2D (toLower (chosenCode r))) \<le> 9 \<longrightarrow>
        (\<exists>e. parseEmoji newEmojiData r sc = Inr e
           \<and> value' e = fromUcs4 (map toUInt_hex (split 0x2D (toLower (chosenCode r))))))"
proof -
  have ok: "length (split 0x2D (toLower (chosenCode r))) \<le> 9 \<longrightarrow>
        (\<exists>e. parseEmoji newEmojiData r sc = Inr e
           \<and> value' e = fromUcs4 (map toUInt_hex (split 0x2D (toLower (chosenCode r)))))"
    by (simp add: parseEmoji_chosen)
  have bad: "9 < length (split 0x2D (toLower (chosenCode r))) \<longrightarrow>
      parseEmoji newEmojiData r sc = Inl OutOfRange
      \<and> loadEmojisLoop ndebug (RawRecord r variations # rest) st = Inl OutOfRange
      \<and> (\<exists>err. loadEmojisLoop ndebug (before @ RawRecord r variations # rest) st = Inl err)
      \<and> (\<forall>st1. loadEmojisLoop ndebug before st = Inr st1 \<longrightarrow>
            loadEmojisLoop ndebug (before @ RawRecord r variations # rest) st = Inl OutOfRange)
      \<and> (\<exists>err. loadEmojis ndebug (Array (before @ RawRecord r variations # rest)) newEmojis = Inl err)"
  proof
    assume h: "9 < length (split 0x2D (toLower (chosenCode r)))"
    then have p: "\<And>sc. parseEmoji newEmojiData r sc = Inl OutOfRange"
      by (simp add: parseEmoji_chosen)
    then have l: "\<And>st. loadEmojisLoop ndebug (RawRecord r variations # rest) st = Inl OutOfRange"
      by simp
    have e: "\<And>st. \<exists>err. loadEmojisLoop ndebug (before @ RawRecord r variations # rest) st = Inl err"
      unfolding loadEmojisLoop_append by (rule bindE_fails) (rule exI, rule l)
    have f: "\<forall>st1. loadEmojisLoop ndebug before st = Inr st1 \<longrightarrow>
            loadEmojisLoop ndebug (before @ RawRecord r variations # rest) st = Inl OutOfRange"
      using l by (simp add: loadEmojisLoop_append del: loadEmojisLoop.simps)
    from p l e f show "parseEmoji newEmojiData r sc = Inl OutOfRange
      \<and> loadEmojisLoop ndebug (RawRecord r variations # rest) st = Inl OutOfRange
      \<and> (\<exists>err. loadEmojisLoop ndebug (before @ RawRecord r variations # rest) st = Inl err)
      \<and> (\<forall>st1. loadEmojisLoop ndebug before st = Inr st1 \<longrightarrow>
            loadEmojisLoop ndebug (before @ RawRecord r variations # rest) st = Inl OutOfRange)
      \<and> (\<exists>err. loadEmojis ndebug (Array (before @ RawRecord r variations # rest)) newEmojis = Inl err)"
      by (simp add: loadEmojis_def)
  qed
  from ok bad show ?thesis by blast
qed

text \<open>
  The kiss record has ten code points and the smile record one; a dataset with the kiss
  record between two smile records fails to load.
\<close>

theorem parseEmoji_codepoint_cap_witness:
  "length (split 0x2D (toLower (chosenCode kissRaw))) = 10
   \<and> parseEmoji newEmojiData kissRaw [] = Inl OutOfRange
   \<and> loadEmojisLoop False [RawRecord smileRaw None] newEmojis
       = Inr (smileEmojis\<lparr>objects := [smileEmoji\<lparr>emote := None\<rparr>]\<rparr>)
   \<and> loadEmojisLoop False ([RawRecord smileRaw None] @ RawRecord kissRaw None # [RawRecord smileRaw None])
        newEmojis = Inl OutOfRange
   \<and> loadEmojisLoop True ([RawRecord smileRaw None] @ RawRecord kissRaw None # [RawRecord smileRaw None])
        newEmojis = Inl OutOfRange
   \<and> length (split 0x2D (toLower (chosenCode smileRaw))) = 1
   \<and> (\<exists>e. parseEmoji newEmojiData smileRaw [] = Inr e \<and> value' e = [0xD83D, 0xDE04])"
proof -
  have k: "9 < length (split 0x2D (toLower (chosenCode kissRaw)))"
    "length (split 0x2D (toLower (chosenCode kissRaw))) = 10"
    by (simp_all add: kiss_parts)
  have s: "loadEmojisLoop ndebug [RawRecord smileRaw None] newEmojis
       = Inr (smileEmojis\<lparr>objects := [smileEmoji\<lparr>emote := None\<rparr>]\<rparr>)" for ndebug
    using loadEmojis_smile[of ndebug] by (simp add: loadEmojis_def)
  have p: "split 0x2D (toLower (chosenCode smileRaw)) = [qs ''1f604'']"
    by (simp add: smileRaw_def chosenCode_def getSafe_def qs_def toLower_def toLowerChar_def)
  have v: "fromUcs4 (map toUInt_hex [qs ''1f604'']) = [0xD83D, 0xDE04]"
    by (simp add: qs_def toUInt_hex_def hexDigit_def requiresSurrogates_def highSurrogate_def
          lowSurrogate_def)
  have a: "parseEmoji newEmojiData kissRaw [] = Inl OutOfRange"
    "loadEmojisLoop ndebug ([RawRecord smileRaw None] @ RawRecord kissRaw None # [RawRecord smileRaw None])
        newEmojis = Inl OutOfRange" for ndebug
    using parseEmoji_codepoint_cap[of kissRaw "[]" ndebug None "[RawRecord smileRaw None]" newEmojis
      "[RawRecord smileRaw None]"] k s[of ndebug]
    by blast+
  from parseEmoji_codepoint_cap[of smileRaw "[]"] p v
  have b: "\<exists>e. parseEmoji newEmojiData smileRaw [] = Inr e \<and> value' e = [0xD83D, 0xDE04]"
    by simp
  from k(2) a(1) a(2)[of False] a(2)[of True] s[of False] p b show ?thesis by simp
qed

text \<open>
  C2 as stated fails: in a dataset of the kiss record and the smile record, the kiss
  record is not skipped with the load going on to the smile record, which loads well
  alone: the whole load ends with \<open>std::out_of_range\<close>.
\<close>

theorem parseEmoji_codepoint_cap_counterexample:
  "length (split 0x2D (toLower (chosenCode kissRaw))) = 10
   \<and> loadEmojis False (Array [RawRecord kissRaw None, RawRecord smileRaw None]) newEmojis
       = Inl OutOfRange
   \<and> loadEmojis True (Array [RawRecord kissRaw None, RawRecord smileRaw None]) newEmojis
       = Inl OutOfRange
   \<and> loadEmojis False (Array [RawRecord smileRaw None]) newEmojis
       = Inr (smileEmojis\<lparr>objects := [smileEmoji\<lparr>emote := None\<rparr>]\<rparr>)
   \<and> loadEmojis True (Array [RawRecord smileRaw None]) newEmojis
       = Inr (smileEmojis\<lparr>objects := [smileEmoji\<lparr>emote := None\<rparr>]\<rparr>)"
  using kiss_parts load_kiss_smile loadEmojis_smile by simp

section \<open>A record without codes\<close>




section \<open>Substitution of short codes\<close>

text \<open>
  C4. \<open>replaceShortCodes\<close> on a token, and on a text of several tokens. The token
  grammar (a colon, one or more letters, digits, underscores, plus or minus signs, a
  colon) is the one of \<open>tokenName\<close>. For every short code of the index that is a
  non-empty word of that grammar and equal to its lowercase form, the text made of the
  colon, the short code and the colon becomes exactly the glyph of the record, both colons
  included. For every such token whose inner text, lowercased, is not a key of the index,
  the text is returned unchanged. On every text the result is the one of
  \<open>spec_substitute\<close>: the text between the matches is kept, each match is replaced by
  the glyph or kept, in the order and at the positions of the original text; and the loop
  of the source, which works on the buffer with the offset, equals it from every position
  \<open>pos\<close> on, when the buffer is the output so far followed by the rest of the text and
  the offset is the difference of their lengths.
\<close>

theorem replaceShortCodes_tokens:
  "(emojiShortCodeToEmoji st nm = Some p \<and> tokenName nm \<and> toLower nm = nm \<longrightarrow>
      replaceShortCodes st (0x3A # nm @ [0x3A]) = value' (objects st ! p))
   \<and> (tokenName v \<and> emojiShortCodeToEmoji st (toLower v) = None \<longrightarrow>
      replaceShortCodes st (0x3A # v @ [0x3A]) = 0x3A # v @ [0x3A])
   \<and> replaceShortCodes st t = spec_substitute (shortCodeToEmoji st) t 0 (globalMatch t 0)
   \<and> matchesFrom t 0 (globalMatch t 0)
   \<and> (\<forall>pos out ms. matchesFrom t pos ms \<and> pos \<le> length t \<longrightarrow>
         replaceLoop (shortCodeToEmoji st) ms (int (length out) - int pos) (out @ drop pos t)
           = out @ spec_substitute (shortCodeToEmoji st) t pos ms)"
proof -
  have a: "emojiShortCodeToEmoji st nm = Some p \<and> tokenName nm \<and> toLower nm = nm \<longrightarrow>
      replaceShortCodes st (0x3A # nm @ [0x3A]) = value' (objects st ! p)"
    by (auto simp: replaceShortCodes_single shortCodeToEmoji_Some)
  have b: "tokenName v \<and> emojiShortCodeToEmoji st (toLower v) = None \<longrightarrow>
      replaceShortCodes st (0x3A # v @ [0x3A]) = 0x3A # v @ [0x3A]"
    by (simp add: replaceShortCodes_single shortCodeToEmoji_def)
  have c: "replaceShortCodes st t = spec_substitute (shortCodeToEmoji st) t 0 (globalMatch t 0)"
    by (rule replaceShortCodes_spec)
  have d: "matchesFrom t 0 (globalMatch t 0)" by (rule globalMatch_matchesFrom)
  have e: "\<forall>pos out ms. matchesFrom t pos ms \<and> pos \<le> length t \<longrightarrow>
         replaceLoop (shortCodeToEmoji st) ms (int (length out) - int pos) (out @ drop pos t)
           = out @ spec_substitute (shortCodeToEmoji st) t pos ms"
    by (simp add: replaceLoop_spec)
  from a b c d e show ?thesis by blast
qed

text \<open>
  On the index of the smile record: the token of the short code, an unknown token, the
  scenario of the specification, and three tokens in one text, of which the first and the
  last are replaced.
\<close>

theorem replaceShortCodes_tokens_witness:
  "emojiShortCodeToEmoji smileEmojis (qs ''smile'') = Some 0
   \<and> tokenName (qs ''smile'') \<and> toLower (qs ''smile'') = qs ''smile''
   \<and> replaceShortCodes smileEmojis (0x3A # qs ''smile'' @ [0x3A]) = [0xD83D, 0xDE04]
   \<and> tokenName (qs ''x'') \<and> emojiShortCodeToEmoji smileEmojis (toLower (qs ''x'')) = None
   \<and> replaceShortCodes smileEmojis (0x3A # qs ''x'' @ [0x3A]) = 0x3A # qs ''x'' @ [0x3A]
   \<and> replaceShortCodes smileEmojis (qs ''hi :smile: there'')
       = qs ''hi '' @ [0xD83D, 0xDE04] @ qs '' there''
   \<and> replaceShortCodes smileEmojis (qs '':smile::x: :SMILE:'')
       = [0xD83D, 0xDE04] @ qs '':x: '' @ [0xD83D, 0xDE04]
   \<and> globalMatch (qs '':smile::x: :SMILE:'') 0
       = [(0, qs '':smile:''), (7, qs '':x:''), (11, qs '':SMILE:'')]"
proof -
  have f: "emojiShortCodeToEmoji smileEmojis (qs ''smile'') = Some 0"
    "tokenName (qs ''smile'')" "toLower (qs ''smile'') = qs ''smile''"
    "tokenName (qs ''x'')" "emojiShortCodeToEmoji smileEmojis (toLower (qs ''x'')) = None"
    "value' (objects smileEmojis ! 0) = [0xD83D, 0xDE04]"
    by (simp_all add: smileEmojis_def smileEmoji_def tokenName_def tokenChar_def toLower_def
          toLowerChar_def qs_def)
  have g: "globalMatch (qs '':smile::x: :SMILE:'') 0
       = [(0, qs '':smile:''), (7, qs '':x:''), (11, qs '':SMILE:'')]"
    by (simp add: globalMatch.simps matchAt_def tokenChar_def qs_def Let_def)
  note T = replaceShortCodes_tokens[of smileEmojis "qs ''smile''" 0 "qs ''x''" "[]"]
  have h1: "replaceShortCodes smileEmojis (0x3A # qs ''smile'' @ [0x3A]) = [0xD83D, 0xDE04]"
    using conjunct1[OF T] f by simp
  have h2: "replaceShortCodes smileEmojis (0x3A # qs ''x'' @ [0x3A]) = 0x3A # qs ''x'' @ [0x3A]"
    using conjunct1[OF conjunct2[OF T]] f by simp
  from f g h1 h2 smile_replace smile_replace_many show ?thesis by simp
qed

text \<open>
  A record with the short names \<open>grin\<close> and \<open>Grinning\<close> is registered under both,
  verbatim. The lookup lowercases the inner text of the token: the token of the registered
  short code \<open>Grinning\<close> is left as it is, and the token \<open>:GRIN:\<close>, whose inner text
  is not a key of the index, is replaced by the glyph.
\<close>

theorem replaceShortCodes_tokens_counterexample:
  "loadEmojis False (Array [RawRecord grinRaw None]) newEmojis = Inr grinEmojis
   \<and> loadEmojis True (Array [RawRecord grinRaw None]) newEmojis = Inr grinEmojis
   \<and> emojiShortCodeToEmoji grinEmojis (qs ''Grinning'') = Some 0
   \<and> value' (objects grinEmojis ! 0) = [0xD83D, 0xDE01]
   \<and> replaceShortCodes grinEmojis (qs '':Grinning:'') = qs '':Grinning:''
   \<and> emojiShortCodeToEmoji grinEmojis (qs ''GRIN'') = None
   \<and> replaceShortCodes grinEmojis (qs '':GRIN:'') = [0xD83D, 0xDE01]"
  using load_grin by (simp add: grinEmojis_def replace_eval)

section \<open>The case of short codes\<close>




section \<open>Idempotence of the substitution\<close>

text \<open>
  C9. For every index and every text \<open>x\<close>: when no token of the grammar that occurs in
  \<open>replaceShortCodes x\<close> has, lowercased, an entry in the index, then
  \<open>replaceShortCodes\<close> leaves \<open>replaceShortCodes x\<close> as it is.
\<close>

theorem replaceShortCodes_idempotent:
  assumes "\<forall>v. tokenName v \<and> sublist (0x3A # v @ [0x3A]) (replaceShortCodes st x)
             \<longrightarrow> emojiShortCodeToEmoji st (toLower v) = None"
  shows "replaceShortCodes st (replaceShortCodes st x) = replaceShortCodes st x"
proof -
  define y where "y = replaceShortCodes st x"
  have "\<forall>(s, tok) \<in> set (globalMatch y 0).
          shortCodeToEmoji st (mid (toLower tok) 1 (int (length tok) - 2)) = None"
  proof (clarify)
    fix s tok assume "(s, tok) \<in> set (globalMatch y 0)"
    from globalMatch_member[OF this] obtain v where
      v: "tokenName v" "tok = 0x3A # v @ [0x3A]" "sublist tok y" by blast
    with assms have "emojiShortCodeToEmoji st (toLower v) = None" by (simp add: y_def)
    moreover have "2 \<le> length tok" using v(2) by simp
    from mid_inner[OF this] have "mid (toLower tok) 1 (int (length tok) - 2) = toLower v"
      using v(2) by simp
    ultimately show "shortCodeToEmoji st (mid (toLower tok) 1 (int (length tok) - 2)) = None"
      by (simp add: shortCodeToEmoji_def)
  qed
  then have "replaceLoop (shortCodeToEmoji st) (globalMatch y 0) 0 y = y"
    by (rule replaceLoop_none)
  then show ?thesis by (simp add: replaceShortCodes_def y_def)
qed

text \<open>
  On the index of the smile record, for a text with an unknown token and the token of
  the short code: the result still holds the unknown token, which is too short to be the
  short code, and the second substitution changes nothing.
\<close>

theorem replaceShortCodes_idempotent_witness:
  "replaceShortCodes smileEmojis (qs '':x: :smile:'') = qs '':x: '' @ [0xD83D, 0xDE04]
   \<and> globalMatch (qs '':x: '' @ [0xD83D, 0xDE04]) 0 = [(0, qs '':x:'')]
   \<and> replaceShortCodes smileEmojis (replaceShortCodes smileEmojis (qs '':x: :smile:''))
       = replaceShortCodes smileEmojis (qs '':x: :smile:'')"
proof -
  have g: "globalMatch (qs '':x: '' @ [0xD83D, 0xDE04]) 0 = [(0, qs '':x:'')]"
    by (simp add: globalMatch.simps matchAt_def tokenChar_def qs_def Let_def)
  have idx: "\<And>k. emojiShortCodeToEmoji smileEmojis k = None \<longleftrightarrow> k \<noteq> qs ''smile''"
    by (simp add: smileEmojis_def)
  have pre: "\<forall>v. tokenName v
        \<and> sublist (0x3A # v @ [0x3A]) (replaceShortCodes smileEmojis (qs '':x: :smile:''))
        \<longrightarrow> emojiShortCodeToEmoji smileEmojis (toLower v) = None"
  proof (intro allI impI)
    fix v :: QString
    assume "tokenName v
        \<and> sublist (0x3A # v @ [0x3A]) (replaceShortCodes smileEmojis (qs '':x: :smile:''))"
    then have "sublist (0x3A # v @ [0x3A]) (qs '':x: '' @ [0xD83D, 0xDE04])"
      by (simp only: smile_replace_x)
    from sublist_length_le[OF this] have "length v \<le> 4" by (simp add: qs_def)
    then have len: "length v \<le> 4" .
    have "toLower v \<noteq> qs ''smile''"
    proof
      assume "toLower v = qs ''smile''"
      then have "length (toLower v) = length (qs ''smile'')" by (rule arg_cong)
      then show False using len by (simp add: qs_def)
    qed
    then show "emojiShortCodeToEmoji smileEmojis (toLower v) = None" by (simp add: idx)
  qed
  from replaceShortCodes_idempotent[OF pre] smile_replace_x g show ?thesis by simp
qed

end
